theory Spec2Isabelle
  imports Complex_Main "HOL-Library.AList"
begin

section \<open>ElliptiCBn: the orchestration layer \<open>run_all.py\<close>\<close>

text \<open>
  The module \<open>src/ElliptiCBn/run_all.py\<close> holds two functions: \<open>_file_check\<close>, which
  resolves an output path and applies the overwrite policy, and \<open>run_all\<close>, which
  normalises its \<open>filename\<close> argument, prepares the output directory, and loops over
  the input files calling the three functions of \<open>ElliptiCBn.core\<close>
  (\<open>get_macrocycles\<close>, \<open>get_ellipticity\<close>, \<open>plot_results\<close>).

  Both functions act on the file system and may raise, so every operation is a
  function from a file-system state to a pair of a result (\<open>Inl\<close> the exception,
  \<open>Inr\<close> the value) and the file-system state it leaves behind. The state is
  returned on the error branch too: what was created or deleted before a
  \<open>raise\<close> stays created or deleted.
\<close>

subsection \<open>Exceptions\<close>

datatype error =
    ValueError
  | FileExistsError
  | FileNotFoundError
  | IsADirectoryError
  | NotADirectoryError
  | CoreError string

subsection \<open>Tables (pandas data frames)\<close>

text \<open>
  A data frame is a list of rows; a row lists its columns in order, each with its
  cell; \<open>column col r\<close> reads a cell, and a column that a row does not have reads as
  missing.
\<close>

datatype cell = CStr string | CNum real

type_synonym row = "(string \<times> cell) list"
type_synonym table = "row list"

definition column :: "string \<Rightarrow> row \<Rightarrow> cell option" where
  "column col r = map_of r col"

text \<open>
  \<open>df[col] = value\<close> with a scalar: every row gets the value in that column, in place
  when the frame has the column and as a new last column otherwise.
\<close>

definition set_column :: "string \<Rightarrow> cell \<Rightarrow> table \<Rightarrow> table" where
  "set_column col v df = map (AList.update col v) df"

text \<open>\<open>pd.concat(dfs, ignore_index=True)\<close>: the rows of the frames, one frame after the other.\<close>

definition pd_concat :: "table list \<Rightarrow> table" where
  "pd_concat dfs = concat dfs"

subsection \<open>File system\<close>

text \<open>
  A flat file system: a path string names at most one node, a directory or a file with
  its content. Path strings are compared as they are (no normalisation, no links), the
  empty path names nothing. A state lists the directories under the names the program
  uses for them; only \<open>os.mkdir\<close> looks at the parent of a path.
\<close>

datatype payload = Raw string | Xlsx table | Csv table | Html string

datatype node = Dir | File payload

type_synonym fs = "string \<rightharpoonup> node"

type_synonym 'a io = "fs \<Rightarrow> (error + 'a) \<times> fs"

definition node_at :: "fs \<Rightarrow> string \<Rightarrow> node option" where
  "node_at s p = (if p = [] then None else s p)"

definition os_path_exists :: "fs \<Rightarrow> string \<Rightarrow> bool" where
  "os_path_exists s p = (node_at s p \<noteq> None)"

definition os_path_isdir :: "fs \<Rightarrow> string \<Rightarrow> bool" where
  "os_path_isdir s p = (node_at s p = Some Dir)"

text \<open>\<open>os.remove\<close> deletes a file; it raises on a directory and on a missing path.\<close>

definition os_remove :: "string \<Rightarrow> unit io" where
  "os_remove p s =
     (case node_at s p of
        None \<Rightarrow> (Inl FileNotFoundError, s)
      | Some Dir \<Rightarrow> (Inl IsADirectoryError, s)
      | Some (File c) \<Rightarrow> (Inr (), s(p := None)))"

text \<open>
  Writing a file (\<open>to_excel\<close>, \<open>to_csv\<close>, the html of a figure) replaces whatever file
  is at the path; it raises when the path is a directory or empty.
\<close>

definition write_file :: "string \<Rightarrow> payload \<Rightarrow> unit io" where
  "write_file p c s =
     (if p = [] then (Inl FileNotFoundError, s)
      else if os_path_isdir s p then (Inl IsADirectoryError, s)
      else (Inr (), s(p \<mapsto> File c)))"

text \<open>Sequencing: the second action runs only when the first did not raise.\<close>

definition and_then :: "'a io \<Rightarrow> ('a \<Rightarrow> 'b io) \<Rightarrow> 'b io" where
  "and_then m f s =
     (case m s of
        (Inl e, s') \<Rightarrow> (Inl e, s')
      | (Inr x, s') \<Rightarrow> f x s')"

definition raise :: "error \<Rightarrow> 'a io" where
  "raise e s = (Inl e, s)"

definition return :: "'a \<Rightarrow> 'a io" where
  "return x s = (Inr x, s)"

subsection \<open>Path functions of \<open>posixpath\<close>\<close>

definition sep :: char where
  "sep = CHR ''/''"

text \<open>\<open>p[p.rfind('/') + 1:]\<close>: what follows the last slash (all of \<open>p\<close> without one).\<close>

definition after_last_sep :: "string \<Rightarrow> string" where
  "after_last_sep p = rev (takeWhile (\<lambda>c. c \<noteq> sep) (rev p))"

text \<open>\<open>p[:p.rfind('/') + 1]\<close>: up to and including the last slash.\<close>

definition upto_last_sep :: "string \<Rightarrow> string" where
  "upto_last_sep p = rev (dropWhile (\<lambda>c. c \<noteq> sep) (rev p))"

definition rstrip_sep :: "string \<Rightarrow> string" where
  "rstrip_sep p = rev (dropWhile (\<lambda>c. c = sep) (rev p))"

definition os_path_split :: "string \<Rightarrow> string \<times> string" where
  "os_path_split p =
     (let head = upto_last_sep p; tail = after_last_sep p
      in if head \<noteq> [] \<and> head \<noteq> replicate (length head) sep
         then (rstrip_sep head, tail) else (head, tail))"

definition os_path_basename :: "string \<Rightarrow> string" where
  "os_path_basename p = after_last_sep p"

text \<open>\<open>os.path.join(a, b)\<close> with two arguments.\<close>

definition os_path_join :: "string \<Rightarrow> string \<Rightarrow> string" where
  "os_path_join a b =
     (if b \<noteq> [] \<and> hd b = sep then b
      else if a = [] \<or> last a = sep then a @ b
      else a @ [sep] @ b)"

subsection \<open>Creating a directory\<close>

definition os_path_dirname :: "string \<Rightarrow> string" where
  "os_path_dirname p = fst (os_path_split p)"

text \<open>
  \<open>os.mkdir\<close> creates one directory and never its parents. The parent is the directory
  part of the path without its trailing slashes; an empty directory part (the working
  directory), \<open>.\<close>, \<open>..\<close> and the root are always there. \<open>os.mkdir\<close> raises \<open>FileNotFoundError\<close>
  when the path is empty or the parent is missing, \<open>NotADirectoryError\<close> when the parent
  is a file, and \<open>FileExistsError\<close> when the path exists.
\<close>

definition parent_ready :: "fs \<Rightarrow> string \<Rightarrow> bool" where
  "parent_ready s p =
     (let d = os_path_dirname (rstrip_sep p)
      in d = [] \<or> d = ''.'' \<or> d = ''..'' \<or> d = replicate (length d) sep \<or> os_path_isdir s d)"

definition os_mkdir :: "string \<Rightarrow> unit io" where
  "os_mkdir p s =
     (if p = [] then (Inl FileNotFoundError, s)
      else if \<not> parent_ready s p
      then (if os_path_exists s (os_path_dirname (rstrip_sep p))
            then (Inl NotADirectoryError, s) else (Inl FileNotFoundError, s))
      else if os_path_exists s p then (Inl FileExistsError, s)
      else (Inr (), s(p \<mapsto> Dir)))"

subsection \<open>\<open>_file_check\<close>\<close>

text \<open>
  The path that \<open>_file_check\<close> settles on (lines 20--21): a name whose directory part is
  empty goes under \<open>output_dir\<close>, any other name stays as it is.
\<close>

definition resolve_path :: "string \<Rightarrow> string \<Rightarrow> string" where
  "resolve_path some_file output_dir =
     (if fst (os_path_split some_file) = []
      then os_path_join output_dir some_file
      else some_file)"

text \<open>
  \<open>_file_check(some_file, output_dir, overwrite)\<close>, lines 12--36. An existing path is an
  error without \<open>overwrite\<close> and is removed with it; the path is returned.
\<close>

definition file_check :: "string \<Rightarrow> string \<Rightarrow> bool \<Rightarrow> string io" where
  "file_check some_file output_dir overwrite s =
     (let some_file' = resolve_path some_file output_dir
      in if os_path_exists s some_file'
         then (if \<not> overwrite then (Inl FileExistsError, s)
               else and_then (os_remove some_file') (\<lambda>_. return some_file') s)
         else (Inr some_file', s))"

subsection \<open>The arguments of \<open>run_all\<close>\<close>

text \<open>The seven numeric keyword arguments, which \<open>run_all\<close> hands to \<open>get_macrocycles\<close>.\<close>

record config =
  bond_dist :: real
  aspect_ratio_filter :: real
  oxygen_dist_cutoff :: real
  min_num_carbons :: int
  max_num_carbons :: int
  min_cycle_cc_bond_length :: real
  max_cycle_cc_bond_length :: real

definition default_config :: config where
  "default_config =
     \<lparr>bond_dist = 25 / 10, aspect_ratio_filter = 3, oxygen_dist_cutoff = 29 / 10,
      min_num_carbons = 10, max_num_carbons = 20,
      min_cycle_cc_bond_length = 13 / 10, max_cycle_cc_bond_length = 17 / 10\<rparr>"

text \<open>
  The \<open>filename\<close> argument: a string, an iterable of strings, or an object without
  \<open>__iter__\<close>.
\<close>

datatype py_filename = PyStr string | PyIter "string list" | PyOther

subsection \<open>The functions of \<open>ElliptiCBn.core\<close>\<close>

text \<open>
  \<open>core.py\<close> is not among the sources, so its functions are parameters of the model:
  \<open>get_macrocycles\<close> reads the file system and returns an atom table or raises,
  \<open>get_ellipticity\<close> returns the ellipticity table and the principal vectors or raises,
  \<open>render_plot\<close> is the drawing of \<open>plot_results\<close>: the figure and its html, or an
  exception. Nothing is assumed about what they compute.
\<close>

record ('a, 'p, 'g) core =
  get_macrocycles :: "config \<Rightarrow> string \<Rightarrow> fs \<Rightarrow> error + 'a"
  get_ellipticity :: "'a \<Rightarrow> error + (table \<times> 'p)"
  render_plot :: "'a \<Rightarrow> 'p \<Rightarrow> error + ('g \<times> string)"

definition lift :: "error + 'a \<Rightarrow> 'a io" where
  "lift r s = (r, s)"

definition reading :: "(fs \<Rightarrow> error + 'a) \<Rightarrow> 'a io" where
  "reading f s = (f s, s)"

text \<open>
  Modelled from the spec: \<open>plot_results(atom_df, html_file, pca_vector_list)\<close> is a
  function of \<open>core.py\<close>. The spec makes it the plotting collaborator that consumes the
  annotated atom table and the principal vectors and produces the visual output; here it
  writes the html of the figure to the path it is given, touches no other path, and
  returns the figure.
\<close>

definition plot_results :: "('a, 'p, 'g) core \<Rightarrow> 'a \<Rightarrow> string \<Rightarrow> 'p \<Rightarrow> 'g io" where
  "plot_results c atom_df html_file pca_vectors =
     and_then (lift (render_plot c atom_df pca_vectors)) (\<lambda>(fig, doc).
     and_then (write_file html_file (Html doc)) (\<lambda>_.
     return fig))"

subsection \<open>\<open>run_all\<close>\<close>

text \<open>Lines 86--93: the list \<open>filenames\<close>.\<close>

definition collect_filenames :: "py_filename \<Rightarrow> string list" where
  "collect_filenames filename =
     (case filename of PyStr f \<Rightarrow> [f] | PyIter fs \<Rightarrow> fs | PyOther \<Rightarrow> [])"

text \<open>Lines 99--117: the output directory.\<close>

definition prepare_output_dir :: "string \<Rightarrow> bool \<Rightarrow> unit io" where
  "prepare_output_dir output_dir overwrite s =
     (if os_path_exists s output_dir
      then (if \<not> os_path_isdir s output_dir
            then (if \<not> overwrite then (Inl FileExistsError, s)
                  else and_then (os_remove output_dir) (\<lambda>_. os_mkdir output_dir) s)
            else (Inr (), s))
      else os_mkdir output_dir s)"

text \<open>\<open>summary_file.split(".")[-1]\<close>: what follows the last dot.\<close>

definition out_ext_of :: "string \<Rightarrow> string" where
  "out_ext_of summary_file = rev (takeWhile (\<lambda>c. c \<noteq> CHR ''.'') (rev summary_file))"

text \<open>
  Lines 121--131: with more than one file the extension of the summary file is checked
  and its path resolved. With one file \<open>out_ext\<close> stays unbound in the source and is
  never read; the model returns the empty string for it.
\<close>

definition check_summary :: "string list \<Rightarrow> string \<Rightarrow> string \<Rightarrow> bool \<Rightarrow> (string \<times> string) io" where
  "check_summary filenames summary_file output_dir overwrite =
     (if length filenames > 1
      then (let out_ext = out_ext_of summary_file
            in if out_ext \<notin> set [''xlsx'', ''csv''] then raise ValueError
               else and_then (file_check summary_file output_dir overwrite) (\<lambda>p.
                    return (p, out_ext)))
      else return (summary_file, []))"

text \<open>
  Lines 137--170, the body of the loop: the figure, and the frame appended to \<open>dfs\<close>.
  The table is written (line 161) before the column \<open>file\<close> is set (line 169).
\<close>

definition run_file ::
  "('a, 'p, 'g) core \<Rightarrow> config \<Rightarrow> string \<Rightarrow> bool \<Rightarrow> string \<Rightarrow> ('g \<times> table) io" where
  "run_file c cfg output_dir overwrite filename =
     (let file_root = os_path_basename filename in
      and_then (file_check (file_root @ ''.xlsx'') output_dir overwrite) (\<lambda>excel_file.
      and_then (file_check (file_root @ ''.html'') output_dir overwrite) (\<lambda>html_file.
      and_then (reading (get_macrocycles c cfg filename)) (\<lambda>atom_df.
      and_then (lift (get_ellipticity c atom_df)) (\<lambda>(ellipticities, pca_vectors).
      and_then (write_file excel_file (Xlsx ellipticities)) (\<lambda>_.
      and_then (plot_results c atom_df html_file pca_vectors) (\<lambda>fig.
      return (fig, set_column ''file'' (CStr filename) ellipticities))))))))"

text \<open>Lines 134--170, the loop: an exception in the body leaves the loop and \<open>run_all\<close>.\<close>

fun run_files ::
  "('a, 'p, 'g) core \<Rightarrow> config \<Rightarrow> string \<Rightarrow> bool \<Rightarrow> string list \<Rightarrow> table list \<Rightarrow> 'g option
     \<Rightarrow> (table list \<times> 'g option) io" where
  "run_files c cfg output_dir overwrite [] dfs fig s = (Inr (dfs, fig), s)"
| "run_files c cfg output_dir overwrite (filename # rest) dfs fig s =
     (case run_file c cfg output_dir overwrite filename s of
        (Inl e, s') \<Rightarrow> (Inl e, s')
      | (Inr (fig', df), s') \<Rightarrow>
          run_files c cfg output_dir overwrite rest (dfs @ [df]) (Some fig') s')"

text \<open>Lines 172--186: the summary file, and the value returned.\<close>

definition write_summary :: "string \<Rightarrow> string \<Rightarrow> table list \<Rightarrow> 'g option \<Rightarrow> 'g option io" where
  "write_summary summary_file out_ext dfs fig =
     (if length dfs > 1
      then (let out_df = pd_concat dfs
            in if out_ext = ''xlsx''
               then and_then (write_file summary_file (Xlsx out_df)) (\<lambda>_. return None)
               else if out_ext = ''csv''
               then and_then (write_file summary_file (Csv out_df)) (\<lambda>_. return None)
               else raise ValueError)
      else return fig)"

definition run_all ::
  "('a, 'p, 'g) core \<Rightarrow> config \<Rightarrow> py_filename \<Rightarrow> string \<Rightarrow> string \<Rightarrow> bool \<Rightarrow> 'g option io" where
  "run_all c cfg filename summary_file output_dir overwrite =
     (let filenames = collect_filenames filename
      in if length filenames = 0 then raise ValueError
         else and_then (prepare_output_dir output_dir overwrite) (\<lambda>_.
              and_then (check_summary filenames summary_file output_dir overwrite)
                (\<lambda>(summary_file', out_ext).
              and_then (run_files c cfg output_dir overwrite filenames [] None) (\<lambda>(dfs, fig).
              write_summary summary_file' out_ext dfs fig))))"

subsection \<open>Output paths and sample inputs\<close>

text \<open>The paths of the two outputs of an input file: what \<open>_file_check\<close> returns for them.\<close>

definition excel_path :: "string \<Rightarrow> string \<Rightarrow> string" where
  "excel_path output_dir filename = resolve_path (os_path_basename filename @ ''.xlsx'') output_dir"

definition html_path :: "string \<Rightarrow> string \<Rightarrow> string" where
  "html_path output_dir filename = resolve_path (os_path_basename filename @ ''.html'') output_dir"

text \<open>The directory prefix that \<open>os.path.join\<close> puts before a name.\<close>

definition under :: "string \<Rightarrow> string" where
  "under d = (if d = [] \<or> last d = sep then d else d @ [sep])"

text \<open>The rows of the table stored at a path (none when there is no table there).\<close>

definition table_at :: "fs \<Rightarrow> string \<Rightarrow> table" where
  "table_at s p =
     (case node_at s p of
        Some (File (Xlsx t)) \<Rightarrow> t
      | Some (File (Csv t)) \<Rightarrow> t
      | _ \<Rightarrow> [])"

text \<open>An action that neither creates nor removes a directory.\<close>

definition dirs_unchanged :: "'a io \<Rightarrow> bool" where
  "dirs_unchanged m = (\<forall>s p. os_path_isdir (snd (m s)) p = os_path_isdir s p)"

text \<open>
  One instance of the core functions, for running the model on concrete inputs. Its
  \<open>get_macrocycles\<close> rejects a configuration with \<open>max_num_carbons < min_num_carbons\<close> or
  a negative \<open>bond_dist\<close>, raises on a missing or empty input file and otherwise returns
  the text of the file; its \<open>get_ellipticity\<close> returns one row with the columns \<open>id\<close>
  and \<open>ellipticity\<close>.
\<close>

definition sample_core :: "(string, nat, string) core" where
  "sample_core =
     \<lparr>get_macrocycles = (\<lambda>cfg filename s.
          if max_num_carbons cfg < min_num_carbons cfg \<or> bond_dist cfg < 0 then Inl ValueError
          else (case node_at s filename of
                  Some (File (Raw txt)) \<Rightarrow>
                    if txt = [] then Inl (CoreError ''no atoms'') else Inr txt
                | _ \<Rightarrow> Inl FileNotFoundError)),
      get_ellipticity = (\<lambda>atom_df.
          Inr ([[(''id'', CStr atom_df), (''ellipticity'', CNum 0)]], length atom_df)),
      render_plot = (\<lambda>atom_df pca_vectors. Inr (''figure of '' @ atom_df, ''<html/>''))\<rparr>"

definition sample_fs :: fs where
  "sample_fs =
     [''a.xyz'' \<mapsto> File (Raw ''C 0 0 0''),
      ''d/b.xyz'' \<mapsto> File (Raw ''C 1 1 1''),
      ''bad.xyz'' \<mapsto> File (Raw [])]"

definition bad_config :: config where
  "bad_config = default_config\<lparr>bond_dist := - 1, min_num_carbons := 10, max_num_carbons := 5\<rparr>"

text \<open>The same core with a \<open>get_macrocycles\<close> that does not look at the configuration.\<close>

definition lenient_core :: "(string, nat, string) core" where
  "lenient_core =
     sample_core\<lparr>get_macrocycles := (\<lambda>cfg. get_macrocycles sample_core default_config)\<rparr>"

text \<open>A frame whose rows all carry the given file name in the column \<open>file\<close>.\<close>

definition tagged :: "string \<Rightarrow> table \<Rightarrow> bool" where
  "tagged filename df = list_all (\<lambda>r. column ''file'' r = Some (CStr filename)) df"

text \<open>The content of the summary file: a spreadsheet or a csv file, by the extension.\<close>

definition summary_payload :: "string \<Rightarrow> table \<Rightarrow> payload" where
  "summary_payload out_ext out_df = (if out_ext = ''xlsx'' then Xlsx out_df else Csv out_df)"

text \<open>A file system in which the output directory and the outputs of a run exist already.\<close>

definition used_fs :: fs where
  "used_fs =
     sample_fs(''out'' \<mapsto> Dir,
       ''out/a.xyz.xlsx'' \<mapsto> File (Raw ''old''),
       ''out/a.xyz.html'' \<mapsto> File (Raw ''old''),
       ''out/summary.xlsx'' \<mapsto> File (Raw ''old''))"

text \<open>A path that holds a file.\<close>

definition is_file :: "fs \<Rightarrow> string \<Rightarrow> bool" where
  "is_file s p = (case node_at s p of Some (File c) \<Rightarrow> True | _ \<Rightarrow> False)"

text \<open>
  The frame of an input file: a table that \<open>get_ellipticity\<close> returned for an atom table
  that \<open>get_macrocycles\<close> returned for the file, with the file name put in the column
  \<open>file\<close> of every row.
\<close>

definition frame_of :: "('a, 'p, 'g) core \<Rightarrow> config \<Rightarrow> string \<Rightarrow> table \<Rightarrow> bool" where
  "frame_of c cfg f df =
     (\<exists>s0 a t pca. get_macrocycles c cfg f s0 = Inr a \<and> get_ellipticity c a = Inr (t, pca)
        \<and> df = map (AList.update ''file'' (CStr f)) t)"

section \<open>Properties\<close>

subsection \<open>Paths\<close>

lemma upto_last_sep_Nil: "upto_last_sep p = [] \<longleftrightarrow> sep \<notin> set p"
  by (auto simp: upto_last_sep_def)

lemma rstrip_sep_Nil: "rstrip_sep h = [] \<longleftrightarrow> h = replicate (length h) sep"
proof
  assume "rstrip_sep h = []"
  then have "\<forall>c\<in>set h. c = sep"
    by (auto simp: rstrip_sep_def)
  then show "h = replicate (length h) sep"
    by (simp add: replicate_length_same)
next
  assume "h = replicate (length h) sep"
  then have "\<forall>c\<in>set h. c = sep"
    by (metis in_set_replicate)
  then show "rstrip_sep h = []"
    by (auto simp: rstrip_sep_def)
qed

lemma split_head_Nil: "fst (os_path_split p) = [] \<longleftrightarrow> sep \<notin> set p"
  by (auto simp: os_path_split_def Let_def upto_last_sep_Nil rstrip_sep_Nil)

lemma resolve_path_bare:
  "sep \<notin> set f \<Longrightarrow>
   resolve_path f d = (if d = [] \<or> last d = sep then d @ f else d @ [sep] @ f)"
  by (cases f) (auto simp: resolve_path_def split_head_Nil os_path_join_def)

lemma resolve_path_dir: "sep \<in> set f \<Longrightarrow> resolve_path f d = f"
  by (simp add: resolve_path_def split_head_Nil)

lemma file_check_returns: "file_check f d ow s = (Inr p, s') \<Longrightarrow> p = resolve_path f d"
  by (auto simp: file_check_def Let_def and_then_def return_def os_remove_def
      split: if_splits option.splits node.splits)

lemma file_check_free:
  "\<not> os_path_exists s (resolve_path f d) \<Longrightarrow> file_check f d ow s = (Inr (resolve_path f d), s)"
  by (simp add: file_check_def)

subsection \<open>Sequencing and directories\<close>

lemma and_then_Inr:
  "and_then m f s = (Inr y, s') \<longleftrightarrow> (\<exists>x s1. m s = (Inr x, s1) \<and> f x s1 = (Inr y, s'))"
  by (auto simp: and_then_def split: prod.splits sum.splits)

lemma and_then_Inl:
  "and_then m f s = (Inl e, s') \<longleftrightarrow>
     m s = (Inl e, s') \<or> (\<exists>x s1. m s = (Inr x, s1) \<and> f x s1 = (Inl e, s'))"
  by (auto simp: and_then_def split: prod.splits sum.splits)

lemma dirs_unchangedD: "dirs_unchanged m \<Longrightarrow> m s = (r, s') \<Longrightarrow> os_path_isdir s' p = os_path_isdir s p"
  by (metis dirs_unchanged_def snd_conv)

lemma dirs_and_then:
  assumes "dirs_unchanged m" and "\<And>x. dirs_unchanged (f x)"
  shows "dirs_unchanged (and_then m f)"
  unfolding dirs_unchanged_def
proof (intro allI)
  fix s p
  obtain r s1 where m: "m s = (r, s1)" by (cases "m s")
  have d1: "os_path_isdir s1 p = os_path_isdir s p"
    using assms(1) m by (rule dirs_unchangedD)
  show "os_path_isdir (snd (and_then m f s)) p = os_path_isdir s p"
  proof (cases r)
    case (Inl e)
    then show ?thesis using m d1 by (simp add: and_then_def)
  next
    case (Inr x)
    obtain r2 s2 where f: "f x s1 = (r2, s2)" by (cases "f x s1")
    have "os_path_isdir s2 p = os_path_isdir s1 p"
      using assms(2) f by (rule dirs_unchangedD)
    then show ?thesis using m d1 Inr f by (simp add: and_then_def)
  qed
qed

lemma dirs_return [simp]: "dirs_unchanged (return x)"
  by (simp add: dirs_unchanged_def return_def)

lemma dirs_raise [simp]: "dirs_unchanged (raise e)"
  by (simp add: dirs_unchanged_def raise_def)

lemma dirs_lift [simp]: "dirs_unchanged (lift r)"
  by (simp add: dirs_unchanged_def lift_def)

lemma dirs_reading [simp]: "dirs_unchanged (reading f)"
  by (simp add: dirs_unchanged_def reading_def)

lemma dirs_os_remove [simp]: "dirs_unchanged (os_remove p)"
  by (auto simp: dirs_unchanged_def os_remove_def os_path_isdir_def node_at_def
      split: option.splits node.splits)

lemma dirs_write_file [simp]: "dirs_unchanged (write_file p c)"
  by (auto simp: dirs_unchanged_def write_file_def os_path_isdir_def node_at_def)

lemma dirs_file_check [simp]: "dirs_unchanged (file_check f d ow)"
proof -
  have "dirs_unchanged (and_then (os_remove q) (\<lambda>_. return q))" for q
    by (intro dirs_and_then) simp_all
  then show ?thesis
    by (auto simp: dirs_unchanged_def file_check_def Let_def)
qed

lemma dirs_plot_results [simp]: "dirs_unchanged (plot_results c a h p)"
  unfolding plot_results_def
  by (intro dirs_and_then) (auto simp: split_def intro!: dirs_and_then)

lemma dirs_run_file [simp]: "dirs_unchanged (run_file c cfg od ow f)"
  unfolding run_file_def Let_def
  by (intro dirs_and_then) (auto simp: split_def intro!: dirs_and_then)

lemma dirs_run_files [simp]: "dirs_unchanged (run_files c cfg od ow fns dfs fig)"
proof (induction fns arbitrary: dfs fig)
  case Nil
  show ?case by (simp add: dirs_unchanged_def)
next
  case (Cons f fns)
  show ?case
    unfolding dirs_unchanged_def
  proof (intro allI)
    fix s p
    obtain r s1 where rf: "run_file c cfg od ow f s = (r, s1)" by (cases "run_file c cfg od ow f s")
    have d1: "os_path_isdir s1 p = os_path_isdir s p"
      using dirs_run_file rf by (rule dirs_unchangedD)
    show "os_path_isdir (snd (run_files c cfg od ow (f # fns) dfs fig s)) p = os_path_isdir s p"
    proof (cases r)
      case (Inl e)
      then show ?thesis using rf d1 by simp
    next
      case (Inr x)
      obtain g df where x: "x = (g, df)" by (cases x)
      have "os_path_isdir (snd (run_files c cfg od ow fns (dfs @ [df]) (Some g) s1)) p = os_path_isdir s1 p"
        using Cons.IH by (simp add: dirs_unchanged_def)
      then show ?thesis using rf d1 Inr x by simp
    qed
  qed
qed

lemma dirs_check_summary [simp]: "dirs_unchanged (check_summary fns sf od ow)"
  unfolding check_summary_def Let_def
  by (auto intro!: dirs_and_then)

lemma dirs_write_summary [simp]: "dirs_unchanged (write_summary sp ext dfs fig)"
  unfolding write_summary_def Let_def
  by (auto intro!: dirs_and_then)

subsection \<open>One input file\<close>

lemma basename_no_sep: "sep \<notin> set (os_path_basename f)"
  using set_takeWhileD [of sep "\<lambda>c. c \<noteq> sep" "rev f"]
  by (auto simp: os_path_basename_def after_last_sep_def)

lemma excel_path_eq: "excel_path od f = under od @ os_path_basename f @ ''.xlsx''"
proof -
  have "sep \<notin> set (os_path_basename f @ ''.xlsx'')"
    using basename_no_sep by (simp add: sep_def)
  then show ?thesis
    by (simp add: excel_path_def resolve_path_bare under_def)
qed

lemma html_path_eq: "html_path od f = under od @ os_path_basename f @ ''.html''"
proof -
  have "sep \<notin> set (os_path_basename f @ ''.html'')"
    using basename_no_sep by (simp add: sep_def)
  then show ?thesis
    by (simp add: html_path_def resolve_path_bare under_def)
qed

lemma excel_html_distinct: "excel_path od f \<noteq> html_path od f"
  by (simp add: excel_path_eq html_path_eq)

lemma excel_path_nonempty: "excel_path od f \<noteq> []"
  by (simp add: excel_path_eq)

lemma html_path_nonempty: "html_path od f \<noteq> []"
  by (simp add: html_path_eq)

lemma file_check_cases:
  "file_check f d ow s =
     (case node_at s (resolve_path f d) of
        None \<Rightarrow> (Inr (resolve_path f d), s)
      | Some Dir \<Rightarrow> (Inl (if ow then IsADirectoryError else FileExistsError), s)
      | Some (File c) \<Rightarrow>
          if ow then (Inr (resolve_path f d), s(resolve_path f d := None))
          else (Inl FileExistsError, s))"
  by (auto simp: file_check_def Let_def os_path_exists_def os_remove_def and_then_def return_def
      split: option.splits node.splits)

lemma file_check_Inr:
  assumes "file_check f d ow s = (Inr p, s')"
  shows "p = resolve_path f d" and "node_at s' p = None"
    and "s' = (if os_path_exists s p then s(p := None) else s)"
  using assms
  by (auto simp: file_check_cases os_path_exists_def node_at_def
      split: option.splits node.splits if_splits)

lemma write_file_Inr:
  "write_file p c s = (Inr u, s') \<longleftrightarrow> p \<noteq> [] \<and> \<not> os_path_isdir s p \<and> s' = s(p \<mapsto> File c)"
  by (auto simp: write_file_def)

lemma reading_Inr: "reading f s = (Inr x, s') \<longleftrightarrow> f s = Inr x \<and> s' = s"
  by (auto simp: reading_def)

lemma lift_Inr: "lift r s = (Inr x, s') \<longleftrightarrow> r = Inr x \<and> s' = s"
  by (auto simp: lift_def)

lemma return_eq: "return x s = (r, s') \<longleftrightarrow> r = Inr x \<and> s' = s"
  by (auto simp: return_def)

lemma plot_results_Inr:
  "plot_results c a h pca s = (Inr fig, s') \<longleftrightarrow>
     (\<exists>doc. render_plot c a pca = Inr (fig, doc) \<and> h \<noteq> [] \<and> \<not> os_path_isdir s h
        \<and> s' = s(h \<mapsto> File (Html doc)))"
  by (auto simp: plot_results_def and_then_Inr lift_Inr write_file_Inr return_eq)

lemma run_file_Inr:
  "run_file c cfg od ow f s = (Inr (fig, df), s') \<longleftrightarrow>
     (\<exists>s1 s2 a t pca doc.
        file_check (os_path_basename f @ ''.xlsx'') od ow s = (Inr (excel_path od f), s1)
      \<and> file_check (os_path_basename f @ ''.html'') od ow s1 = (Inr (html_path od f), s2)
      \<and> get_macrocycles c cfg f s2 = Inr a
      \<and> get_ellipticity c a = Inr (t, pca)
      \<and> render_plot c a pca = Inr (fig, doc)
      \<and> df = set_column ''file'' (CStr f) t
      \<and> s' = s2(excel_path od f \<mapsto> File (Xlsx t), html_path od f \<mapsto> File (Html doc)))"
  (is "?L \<longleftrightarrow> ?R")
proof
  assume ?L
  then obtain ex s1 ht s2 a t pca s3 where
    c1: "file_check (os_path_basename f @ ''.xlsx'') od ow s = (Inr ex, s1)" and
    c2: "file_check (os_path_basename f @ ''.html'') od ow s1 = (Inr ht, s2)" and
    gm: "get_macrocycles c cfg f s2 = Inr a" and
    ge: "get_ellipticity c a = Inr (t, pca)" and
    w: "write_file ex (Xlsx t) s2 = (Inr (), s3)" and
    pl: "plot_results c a ht pca s3 = (Inr fig, s')" and
    df: "df = set_column ''file'' (CStr f) t"
    unfolding run_file_def Let_def
    by (auto simp: and_then_Inr reading_Inr lift_Inr return_eq)
  have ex: "ex = excel_path od f" using file_check_Inr(1) [OF c1] by (simp add: excel_path_def)
  have ht: "ht = html_path od f" using file_check_Inr(1) [OF c2] by (simp add: html_path_def)
  from w have s3: "s3 = s2(ex \<mapsto> File (Xlsx t))" by (simp add: write_file_Inr)
  from pl obtain doc where "render_plot c a pca = Inr (fig, doc)" "s' = s3(ht \<mapsto> File (Html doc))"
    by (auto simp: plot_results_Inr)
  with c1 c2 gm ge df ex ht s3 show ?R by blast
next
  assume ?R
  then obtain s1 s2 a t pca doc where
    c1: "file_check (os_path_basename f @ ''.xlsx'') od ow s = (Inr (excel_path od f), s1)" and
    c2: "file_check (os_path_basename f @ ''.html'') od ow s1 = (Inr (html_path od f), s2)" and
    gm: "get_macrocycles c cfg f s2 = Inr a" and
    ge: "get_ellipticity c a = Inr (t, pca)" and
    rp: "render_plot c a pca = Inr (fig, doc)" and
    df: "df = set_column ''file'' (CStr f) t" and
    s': "s' = s2(excel_path od f \<mapsto> File (Xlsx t), html_path od f \<mapsto> File (Html doc))"
    by blast
  have "\<not> os_path_isdir s1 (excel_path od f)"
    using file_check_Inr(2) [OF c1] by (simp add: os_path_isdir_def)
  then have d1: "\<not> os_path_isdir s2 (excel_path od f)"
    using dirs_unchangedD [OF dirs_file_check c2] by simp
  have d2: "\<not> os_path_isdir s2 (html_path od f)"
    using file_check_Inr(2) [OF c2] by (simp add: os_path_isdir_def)
  have w: "write_file (excel_path od f) (Xlsx t) s2 = (Inr (), s2(excel_path od f \<mapsto> File (Xlsx t)))"
    using d1 by (simp add: write_file_Inr excel_path_nonempty)
  have d3: "\<not> os_path_isdir (s2(excel_path od f \<mapsto> File (Xlsx t))) (html_path od f)"
    using d2 excel_html_distinct [of od f] by (auto simp: os_path_isdir_def node_at_def)
  have pl: "plot_results c a (html_path od f) pca (s2(excel_path od f \<mapsto> File (Xlsx t))) = (Inr fig, s')"
    using rp d3 s' by (simp add: plot_results_Inr html_path_nonempty)
  show ?L
    unfolding run_file_def Let_def
    using c1 c2 gm ge w pl df
    by (simp add: and_then_def reading_def lift_def return_def)
qed

subsection \<open>The loop and the whole run\<close>

lemma run_files_append:
  "run_files c cfg od ow (xs @ ys) dfs fig s =
     (case run_files c cfg od ow xs dfs fig s of
        (Inl e, s') \<Rightarrow> (Inl e, s')
      | (Inr (dfs', fig'), s') \<Rightarrow> run_files c cfg od ow ys dfs' fig' s')"
  by (induction xs arbitrary: dfs fig s) (auto split: prod.splits sum.splits)

lemma run_files_fails:
  assumes "run_file c cfg od ow f s = (Inl e, s')"
  shows "run_files c cfg od ow (f # rest) dfs fig s = (Inl e, s')"
  using assms by simp

lemma tagged_set_column: "tagged f (set_column ''file'' (CStr f) t)"
  by (simp add: tagged_def set_column_def column_def list_all_iff update_conv')

lemma run_file_tagged:
  "run_file c cfg od ow f s = (Inr (fig, df), s') \<Longrightarrow> tagged f df"
  by (auto simp: run_file_Inr tagged_set_column)

lemma run_files_Inr:
  "run_files c cfg od ow fns dfs fig s = (Inr (dfs', fig'), s') \<Longrightarrow>
   \<exists>new. dfs' = dfs @ new \<and> list_all2 tagged fns new"
proof (induction fns arbitrary: dfs fig s)
  case Nil
  then show ?case by simp
next
  case (Cons f fns)
  from Cons.prems obtain g df s1 where
    rf: "run_file c cfg od ow f s = (Inr (g, df), s1)" and
    rest: "run_files c cfg od ow fns (dfs @ [df]) (Some g) s1 = (Inr (dfs', fig'), s')"
    by (auto split: prod.splits sum.splits)
  from Cons.IH [OF rest] obtain new where
    new: "dfs' = (dfs @ [df]) @ new" "list_all2 tagged fns new"
    by blast
  have "list_all2 tagged (f # fns) (df # new)"
    using run_file_tagged [OF rf] new(2) by simp
  with new(1) show ?case by auto
qed

lemma resolve_path_nonempty: "f \<noteq> [] \<Longrightarrow> resolve_path f d \<noteq> []"
  by (auto simp: resolve_path_def os_path_join_def)

lemma out_ext_nonempty: "out_ext_of sf \<in> set [''xlsx'', ''csv''] \<Longrightarrow> sf \<noteq> []"
  by (auto simp: out_ext_of_def)

lemma check_summary_Inr:
  assumes "check_summary fns sf od ow s = (Inr (sp, ext), s')" and "1 < length fns"
  shows "ext = out_ext_of sf" and "ext = ''xlsx'' \<or> ext = ''csv''"
    and "sp = resolve_path sf od" and "sp \<noteq> []" and "node_at s' sp = None"
    and "file_check sf od ow s = (Inr sp, s')"
proof -
  from assms have ext: "out_ext_of sf \<in> set [''xlsx'', ''csv'']"
    and fc: "file_check sf od ow s = (Inr sp, s')" and e: "ext = out_ext_of sf"
    by (auto simp: check_summary_def Let_def raise_def and_then_Inr return_eq split: if_splits)
  show "ext = out_ext_of sf" by (rule e)
  show "ext = ''xlsx'' \<or> ext = ''csv''" using ext e by auto
  show "sp = resolve_path sf od" using file_check_Inr(1) [OF fc] .
  then show "sp \<noteq> []" using resolve_path_nonempty [OF out_ext_nonempty [OF ext]] by simp
  show "node_at s' sp = None" using file_check_Inr(2) [OF fc] .
  show "file_check sf od ow s = (Inr sp, s')" by (rule fc)
qed

lemma write_summary_many:
  assumes "1 < length dfs" and "ext = ''xlsx'' \<or> ext = ''csv''"
  shows "write_summary sp ext dfs fig s =
     (if sp = [] then (Inl FileNotFoundError, s)
      else if os_path_isdir s sp then (Inl IsADirectoryError, s)
      else (Inr None, s(sp \<mapsto> File (summary_payload ext (pd_concat dfs)))))"
  using assms
  by (auto simp: write_summary_def Let_def and_then_def write_file_def return_def summary_payload_def)

lemma run_all_many:
  assumes "run_all c cfg fn sf od ow s = (Inr r, s')" and "1 < length (collect_filenames fn)"
  shows "\<exists>s1 s2 s3 dfs fig.
      prepare_output_dir od ow s = (Inr (), s1)
    \<and> file_check sf od ow s1 = (Inr (resolve_path sf od), s2)
    \<and> run_files c cfg od ow (collect_filenames fn) [] None s2 = (Inr (dfs, fig), s3)
    \<and> list_all2 tagged (collect_filenames fn) dfs
    \<and> (out_ext_of sf = ''xlsx'' \<or> out_ext_of sf = ''csv'')
    \<and> resolve_path sf od \<noteq> []
    \<and> s' = s3(resolve_path sf od \<mapsto> File (summary_payload (out_ext_of sf) (pd_concat dfs)))
    \<and> r = None"
proof -
  let ?fns = "collect_filenames fn"
  from assms obtain s1 sp ext s2 dfs fig s3 where
    p: "prepare_output_dir od ow s = (Inr (), s1)" and
    cs: "check_summary ?fns sf od ow s1 = (Inr (sp, ext), s2)" and
    rf: "run_files c cfg od ow ?fns [] None s2 = (Inr (dfs, fig), s3)" and
    ws: "write_summary sp ext dfs fig s3 = (Inr r, s')"
    unfolding run_all_def Let_def
    by (auto simp: raise_def and_then_Inr split: if_splits)
  note c = check_summary_Inr [OF cs assms(2)]
  from run_files_Inr [OF rf] have t: "list_all2 tagged ?fns dfs" by simp
  then have "length dfs = length ?fns" by (simp add: list_all2_lengthD)
  with assms(2) have "1 < length dfs" by simp
  from ws write_summary_many [OF this c(2), of sp fig s3]
  have "s' = s3(sp \<mapsto> File (summary_payload ext (pd_concat dfs)))" "r = None"
    by (auto split: if_splits)
  with p c rf t show ?thesis by auto
qed

lemma run_all_many_total:
  assumes "1 < length (collect_filenames fn)"
    and "prepare_output_dir od ow s = (Inr (), s1)"
    and "check_summary (collect_filenames fn) sf od ow s1 = (Inr (sp, ext), s2)"
    and "run_files c cfg od ow (collect_filenames fn) [] None s2 = (Inr (dfs, fig), s3)"
  shows "run_all c cfg fn sf od ow s =
          (Inr None, s3(sp \<mapsto> File (summary_payload ext (pd_concat dfs))))"
proof -
  note c = check_summary_Inr [OF assms(3) assms(1)]
  from run_files_Inr [OF assms(4)] have "length dfs = length (collect_filenames fn)"
    by (simp add: list_all2_lengthD)
  with assms(1) have many: "1 < length dfs" by simp
  have "\<not> os_path_isdir s2 sp" using c(5) by (simp add: os_path_isdir_def)
  then have "\<not> os_path_isdir s3 sp"
    using dirs_unchangedD [OF dirs_run_files assms(4)] by simp
  then have "write_summary sp ext dfs fig s3 =
      (Inr None, s3(sp \<mapsto> File (summary_payload ext (pd_concat dfs))))"
    using write_summary_many [OF many c(2), of sp fig s3] c(4) by simp
  then show ?thesis
    using assms unfolding run_all_def Let_def
    by (auto simp: and_then_def)
qed

subsection \<open>Claims\<close>

text \<open>
  C9. A name is bare when \<open>os.path.split\<close> gives it an empty directory part, which is
  when it has no slash. \<open>_file_check\<close> puts a bare name under \<open>output_dir\<close> (joined with
  one slash, unless \<open>output_dir\<close> is empty or ends with a slash already) and leaves a
  name with a directory part unchanged, whatever \<open>output_dir\<close> is. This is the path it
  returns whenever it returns, and it does return when nothing is at that path.
\<close>

theorem file_check_path:
  "(fst (os_path_split f) = [] \<longleftrightarrow> sep \<notin> set f)
   \<and> (sep \<notin> set f \<longrightarrow>
        resolve_path f d = (if d = [] \<or> last d = sep then d @ f else d @ [sep] @ f))
   \<and> (sep \<in> set f \<longrightarrow> resolve_path f d = f)
   \<and> (\<forall>p s'. file_check f d ow s = (Inr p, s') \<longrightarrow> p = resolve_path f d)
   \<and> (\<not> os_path_exists s (resolve_path f d) \<longrightarrow>
        file_check f d ow s = (Inr (resolve_path f d), s))"
  using split_head_Nil resolve_path_bare resolve_path_dir file_check_returns file_check_free
  by blast

theorem file_check_path_witness:
  "file_check ''summary.xlsx'' ''out'' False Map.empty = (Inr ''out/summary.xlsx'', Map.empty)
   \<and> file_check ''./file.txt'' ''out'' False Map.empty = (Inr ''./file.txt'', Map.empty)
   \<and> file_check ''/a/b/file.txt'' ''out'' False Map.empty = (Inr ''/a/b/file.txt'', Map.empty)"
  using file_check_path [of "''summary.xlsx''" "''out''" False Map.empty]
    file_check_path [of "''./file.txt''" "''out''" False Map.empty]
    file_check_path [of "''/a/b/file.txt''" "''out''" False Map.empty]
  by (simp add: sep_def os_path_exists_def node_at_def)

text \<open>The equations that evaluate the model on a concrete input.\<close>

lemmas run_all_eval =
  run_all_def collect_filenames_def raise_def return_def and_then_def prepare_output_dir_def
  os_path_exists_def os_path_isdir_def node_at_def os_mkdir_def os_path_dirname_def
  parent_ready_def is_file_def os_remove_def check_summary_def
  out_ext_of_def file_check_def resolve_path_def os_path_split_def os_path_join_def
  upto_last_sep_def after_last_sep_def rstrip_sep_def sep_def os_path_basename_def run_file_def
  reading_def lift_def write_file_def plot_results_def write_summary_def pd_concat_def
  set_column_def column_def table_at_def tagged_def summary_payload_def excel_path_def
  html_path_def sample_core_def lenient_core_def sample_fs_def used_fs_def default_config_def bad_config_def
  Let_def

lemma table_at_written:
  "p \<noteq> [] \<Longrightarrow> table_at (s(p \<mapsto> File (summary_payload ext t))) p = t"
  by (simp add: table_at_def node_at_def summary_payload_def)

lemma tagged_file_column:
  "list_all2 tagged fns dfs \<Longrightarrow>
   map (column ''file'') (concat dfs) =
     concat (map2 (\<lambda>f df. replicate (length df) (Some (CStr f))) fns dfs)"
proof (induction rule: list_all2_induct)
  case Nil
  show ?case by simp
next
  case (Cons f fns df dfs)
  from Cons.hyps(1) have "map (column ''file'') df = replicate (length df) (Some (CStr f))"
    by (simp add: tagged_def list_all_iff map_replicate_const [symmetric] cong: map_cong)
  with Cons.IH show ?case by simp
qed

lemma tagged_rows:
  assumes "list_all2 tagged fns dfs" and "row \<in> set (concat dfs)"
  shows "\<exists>f\<in>set fns. column ''file'' row = Some (CStr f)"
proof -
  from assms(2) obtain df where df: "df \<in> set dfs" "row \<in> set df" by auto
  from df(1) obtain i where i: "i < length dfs" "dfs ! i = df" by (auto simp: in_set_conv_nth)
  from assms(1) i have "tagged (fns ! i) df" "i < length fns"
    by (auto simp: list_all2_conv_all_nth)
  with df(2) show ?thesis by (auto simp: tagged_def list_all_iff)
qed

text \<open>
  C6. When \<open>run_all\<close> is given more than one file and returns, the summary table is the
  frames of the input files one after the other, in the order of the input: read down
  the column \<open>file\<close>, it is the first file name once for each row of the first frame,
  then the second file name, and so on.
\<close>

theorem summary_in_input_order:
  assumes "run_all c cfg fn sf od ow s = (Inr r, s')"
    and "1 < length (collect_filenames fn)"
  shows "\<exists>s2 s3 dfs fig.
      run_files c cfg od ow (collect_filenames fn) [] None s2 = (Inr (dfs, fig), s3)
    \<and> length dfs = length (collect_filenames fn)
    \<and> table_at s' (resolve_path sf od) = concat dfs
    \<and> map (column ''file'') (table_at s' (resolve_path sf od))
        = concat (map2 (\<lambda>f df. replicate (length df) (Some (CStr f))) (collect_filenames fn) dfs)"
proof -
  from run_all_many [OF assms] obtain s2 s3 dfs fig where
    rf: "run_files c cfg od ow (collect_filenames fn) [] None s2 = (Inr (dfs, fig), s3)" and
    t: "list_all2 tagged (collect_filenames fn) dfs" and
    ne: "resolve_path sf od \<noteq> []" and
    s': "s' = s3(resolve_path sf od \<mapsto> File (summary_payload (out_ext_of sf) (pd_concat dfs)))"
    by blast
  have tab: "table_at s' (resolve_path sf od) = concat dfs"
    using ne s' by (simp add: table_at_written pd_concat_def)
  have len: "length dfs = length (collect_filenames fn)"
    using t by (simp add: list_all2_lengthD)
  from rf len tab tagged_file_column [OF t] show ?thesis
    by (metis (no_types, lifting))
qed

theorem summary_in_input_order_witness:
  "map (column ''file'') (table_at (snd (run_all sample_core default_config
        (PyIter [''d/b.xyz'', ''a.xyz'', ''d/b.xyz'']) ''summary.csv'' ''out'' True sample_fs))
        ''out/summary.csv'')
     = [Some (CStr ''d/b.xyz''), Some (CStr ''a.xyz''), Some (CStr ''d/b.xyz'')]
   \<and> (\<exists>s2 s3 dfs fig.
      run_files sample_core default_config ''out'' True
        (collect_filenames (PyIter [''d/b.xyz'', ''a.xyz'', ''d/b.xyz''])) [] None s2
        = (Inr (dfs, fig), s3)
    \<and> length dfs = length (collect_filenames (PyIter [''d/b.xyz'', ''a.xyz'', ''d/b.xyz'']))
    \<and> table_at (snd (run_all sample_core default_config
        (PyIter [''d/b.xyz'', ''a.xyz'', ''d/b.xyz'']) ''summary.csv'' ''out'' True sample_fs))
        (resolve_path ''summary.csv'' ''out'') = concat dfs
    \<and> map (column ''file'') (table_at (snd (run_all sample_core default_config
        (PyIter [''d/b.xyz'', ''a.xyz'', ''d/b.xyz'']) ''summary.csv'' ''out'' True sample_fs))
        (resolve_path ''summary.csv'' ''out''))
        = concat (map2 (\<lambda>f df. replicate (length df) (Some (CStr f)))
            (collect_filenames (PyIter [''d/b.xyz'', ''a.xyz'', ''d/b.xyz''])) dfs))"
proof -
  let ?run = "run_all sample_core default_config
        (PyIter [''d/b.xyz'', ''a.xyz'', ''d/b.xyz'']) ''summary.csv'' ''out'' True sample_fs"
  have "fst ?run = Inr None"
    by (simp add: run_all_eval)
  then have h1: "?run = (Inr None, snd ?run)"
    by (simp add: prod_eq_iff)
  have h2: "1 < length (collect_filenames (PyIter [''d/b.xyz'', ''a.xyz'', ''d/b.xyz'']))"
    by (simp add: collect_filenames_def)
  have "map (column ''file'') (table_at (snd ?run) ''out/summary.csv'')
     = [Some (CStr ''d/b.xyz''), Some (CStr ''a.xyz''), Some (CStr ''d/b.xyz'')]"
    by (simp add: run_all_eval)
  then show ?thesis
    using summary_in_input_order [OF h1 h2] by blast
qed

text \<open>
  C5. The table written for an input file is the table that \<open>get_ellipticity\<close> returned,
  as it was returned: one row for each row of that table, with its columns. The column
  \<open>file\<close> is set afterwards, on the frame that goes into \<open>dfs\<close> for the summary.
\<close>

theorem per_file_table_written:
  assumes "run_file c cfg od ow f s = (Inr (fig, df), s')"
  shows "\<exists>s2 a t pca.
      get_macrocycles c cfg f s2 = Inr a
    \<and> get_ellipticity c a = Inr (t, pca)
    \<and> node_at s' (excel_path od f) = Some (File (Xlsx t))
    \<and> df = set_column ''file'' (CStr f) t"
proof -
  from assms obtain s2 a t pca doc where
    gm: "get_macrocycles c cfg f s2 = Inr a" and
    ge: "get_ellipticity c a = Inr (t, pca)" and
    df: "df = set_column ''file'' (CStr f) t" and
    s': "s' = s2(excel_path od f \<mapsto> File (Xlsx t), html_path od f \<mapsto> File (Html doc))"
    unfolding run_file_Inr by blast
  have "node_at s' (excel_path od f) = Some (File (Xlsx t))"
    using s' excel_html_distinct [of od f] excel_path_nonempty [of od f]
    by (simp add: node_at_def)
  with gm ge df show ?thesis by blast
qed

theorem per_file_table_written_witness:
  "\<exists>s2 a t pca.
      get_macrocycles sample_core default_config ''a.xyz'' s2 = Inr a
    \<and> get_ellipticity sample_core a = Inr (t, pca)
    \<and> node_at (snd (run_file sample_core default_config ''out'' False ''a.xyz'' sample_fs))
         (excel_path ''out'' ''a.xyz'') = Some (File (Xlsx t))
    \<and> [[(''id'', CStr ''C 0 0 0''), (''ellipticity'', CNum 0), (''file'', CStr ''a.xyz'')]]
         = set_column ''file'' (CStr ''a.xyz'') t"
proof -
  let ?run = "run_file sample_core default_config ''out'' False ''a.xyz'' sample_fs"
  have "fst ?run = Inr (''figure of C 0 0 0'',
      [[(''id'', CStr ''C 0 0 0''), (''ellipticity'', CNum 0), (''file'', CStr ''a.xyz'')]])"
    by (simp add: run_all_eval)
  then have h: "?run = (Inr (''figure of C 0 0 0'',
      [[(''id'', CStr ''C 0 0 0''), (''ellipticity'', CNum 0), (''file'', CStr ''a.xyz'')]]), snd ?run)"
    by (simp add: prod_eq_iff)
  show ?thesis
    using per_file_table_written [OF h] .
qed

theorem per_file_table_counterexample:
  "fst (run_all sample_core default_config (PyStr ''a.xyz'') ''summary.xlsx'' ''out'' False sample_fs)
     = Inr (Some ''figure of C 0 0 0'')
   \<and> table_at (snd (run_all sample_core default_config (PyStr ''a.xyz'') ''summary.xlsx'' ''out''
        False sample_fs)) ''out/a.xyz.xlsx''
     = [[(''id'', CStr ''C 0 0 0''), (''ellipticity'', CNum 0)]]
   \<and> map (column ''file'') (table_at (snd (run_all sample_core default_config (PyStr ''a.xyz'')
        ''summary.xlsx'' ''out'' False sample_fs)) ''out/a.xyz.xlsx'')
     = [None]"
  by (simp add: run_all_eval)

lemma and_then_cong_state:
  "m s = m t \<Longrightarrow> and_then m f s = and_then m f t"
  by (simp add: and_then_def)

lemma file_check_exists_False:
  "os_path_exists s (resolve_path f od) \<Longrightarrow> file_check f od False s = (Inl FileExistsError, s)"
  by (simp add: file_check_def)

lemma file_check_file_True:
  "node_at s (resolve_path f od) = Some (File old) \<Longrightarrow>
   file_check f od True s = (Inr (resolve_path f od), s(resolve_path f od := None))"
  by (simp add: file_check_cases)

lemma file_check_removed:
  "node_at s (resolve_path f od) = Some (File old) \<Longrightarrow>
   file_check f od True (s(resolve_path f od := None)) = file_check f od True s"
  by (simp add: file_check_cases node_at_def)

lemma run_file_exists_False:
  assumes "os_path_exists s (excel_path od fl) \<or> os_path_exists s (html_path od fl)"
  shows "run_file c cfg od False fl s = (Inl FileExistsError, s)"
proof (cases "os_path_exists s (excel_path od fl)")
  case True
  then have "file_check (os_path_basename fl @ ''.xlsx'') od False s = (Inl FileExistsError, s)"
    by (simp add: file_check_exists_False excel_path_def)
  then show ?thesis
    unfolding run_file_def Let_def by (simp add: and_then_def)
next
  case False
  then have 1: "file_check (os_path_basename fl @ ''.xlsx'') od False s
      = (Inr (excel_path od fl), s)"
    by (simp add: file_check_free excel_path_def)
  from False assms have "os_path_exists s (html_path od fl)" by simp
  then have 2: "file_check (os_path_basename fl @ ''.html'') od False s = (Inl FileExistsError, s)"
    by (simp add: file_check_exists_False html_path_def)
  show ?thesis
    unfolding run_file_def Let_def using 1 2 by (simp add: and_then_def)
qed

lemma run_file_excel_True:
  assumes "node_at s (excel_path od fl) = Some (File old)"
  shows "run_file c cfg od True fl s = run_file c cfg od True fl (s(excel_path od fl := None))"
  unfolding run_file_def Let_def
  by (rule and_then_cong_state)
    (use assms in \<open>simp add: excel_path_def file_check_removed\<close>)

lemma run_file_html_True:
  assumes "node_at s (html_path od fl) = Some (File old)"
    and "\<not> os_path_isdir s (excel_path od fl)"
  shows "run_file c cfg od True fl s = run_file c cfg od True fl (s(html_path od fl := None))"
proof -
  let ?ex = "excel_path od fl" and ?ht = "html_path od fl"
  let ?cx = "file_check (os_path_basename fl @ ''.xlsx'') od True"
  let ?ch = "file_check (os_path_basename fl @ ''.html'') od True"
  have ne: "?ex \<noteq> ?ht" "?ex \<noteq> []" "?ht \<noteq> []"
    by (simp_all add: excel_html_distinct excel_path_nonempty html_path_nonempty)
  have "and_then ?cx (\<lambda>e. and_then ?ch (k e)) s
      = and_then ?cx (\<lambda>e. and_then ?ch (k e)) (s(?ht := None))" for k :: "string \<Rightarrow> string \<Rightarrow> 'z io"
  proof (cases "node_at s ?ex")
    case None
    then have "?cx s = (Inr ?ex, s)" "?cx (s(?ht := None)) = (Inr ?ex, s(?ht := None))"
      using ne by (simp_all add: file_check_cases excel_path_def [symmetric] node_at_def)
    moreover have "?ch s = (Inr ?ht, s(?ht := None))" "?ch (s(?ht := None)) = (Inr ?ht, s(?ht := None))"
      using assms(1) ne
      by (simp_all add: file_check_cases html_path_def [symmetric] node_at_def)
    ultimately show ?thesis by (simp add: and_then_def)
  next
    case (Some n)
    with assms(2) obtain x where n: "n = File x"
      by (cases n) (simp_all add: os_path_isdir_def)
    have "?cx s = (Inr ?ex, s(?ex := None))"
      "?cx (s(?ht := None)) = (Inr ?ex, s(?ht := None, ?ex := None))"
      using Some n ne by (simp_all add: file_check_cases excel_path_def [symmetric] node_at_def)
    moreover have "?ch (s(?ex := None)) = (Inr ?ht, s(?ex := None, ?ht := None))"
      "?ch (s(?ht := None, ?ex := None)) = (Inr ?ht, s(?ht := None, ?ex := None))"
      using assms(1) ne
      by (simp_all add: file_check_cases html_path_def [symmetric] node_at_def)
    moreover have "s(?ex := None, ?ht := None) = s(?ht := None, ?ex := None)"
      using ne by (simp add: fun_upd_twist)
    ultimately show ?thesis by (simp add: and_then_def)
  qed
  then show ?thesis
    unfolding run_file_def Let_def .
qed

lemma prepare_output_dir_isdir:
  "os_path_isdir s od \<Longrightarrow> prepare_output_dir od ow s = (Inr (), s)"
  by (simp add: prepare_output_dir_def os_path_isdir_def os_path_exists_def)

lemma run_all_single_exists_False:
  assumes "os_path_isdir s od"
    and "os_path_exists s (excel_path od fl) \<or> os_path_exists s (html_path od fl)"
  shows "run_all c cfg (PyStr fl) sf od False s = (Inl FileExistsError, s)"
  unfolding run_all_def Let_def
  using prepare_output_dir_isdir [OF assms(1), of False]
    run_file_exists_False [OF assms(2), of c cfg]
  by (simp add: collect_filenames_def and_then_def check_summary_def return_def)

lemma run_all_summary_exists_False:
  assumes "1 < length (collect_filenames fn)"
    and "out_ext_of sf \<in> set [''xlsx'', ''csv'']"
    and "os_path_isdir s od"
    and "os_path_exists s (resolve_path sf od)"
  shows "run_all c cfg fn sf od False s = (Inl FileExistsError, s)"
proof -
  have "check_summary (collect_filenames fn) sf od False s = (Inl FileExistsError, s)"
    using assms(1,2) file_check_exists_False [OF assms(4)]
    by (auto simp: check_summary_def Let_def and_then_def)
  then show ?thesis
    unfolding run_all_def Let_def
    using prepare_output_dir_isdir [OF assms(3), of False] assms(1)
    by (auto simp: and_then_def)
qed

lemma run_all_summary_True:
  assumes "1 < length (collect_filenames fn)"
    and "out_ext_of sf \<in> set [''xlsx'', ''csv'']"
    and "os_path_isdir s od"
    and "node_at s (resolve_path sf od) = Some (File old)"
  shows "run_all c cfg fn sf od True s = run_all c cfg fn sf od True (s(resolve_path sf od := None))"
proof -
  let ?sp = "resolve_path sf od"
  have "?sp \<noteq> od" using assms(3,4) by (auto simp: os_path_isdir_def)
  then have d: "os_path_isdir (s(?sp := None)) od"
    using assms(3) by (auto simp: os_path_isdir_def node_at_def split: if_splits)
  have "check_summary (collect_filenames fn) sf od True (s(?sp := None))
      = check_summary (collect_filenames fn) sf od True s"
    using assms(1,2) file_check_removed [OF assms(4)]
    by (auto simp: check_summary_def Let_def and_then_def)
  then show ?thesis
    unfolding run_all_def Let_def
    using prepare_output_dir_isdir [OF assms(3), of True] prepare_output_dir_isdir [OF d, of True]
      assms(1)
    by (auto simp: and_then_def)
qed

text \<open>
  C8. An output path that exists when it is resolved: without \<open>overwrite\<close>,
  \<open>_file_check\<close> raises \<open>FileExistsError\<close> and changes nothing, and so does \<open>run_all\<close>,
  for the table and the figure of an input file (in the loop, and in a run on one file
  with the output directory in place) and for the summary file of a run on several
  files. With \<open>overwrite\<close>, \<open>_file_check\<close> removes an existing file and returns its path,
  and \<open>run_all\<close> goes on as it does when the file is not there: the file is deleted
  before anything is read or written.
\<close>

theorem overwrite_policy:
  "(os_path_exists s (resolve_path f od) \<longrightarrow>
      file_check f od False s = (Inl FileExistsError, s))
   \<and> (node_at s (resolve_path f od) = Some (File old) \<longrightarrow>
      file_check f od True s = (Inr (resolve_path f od), s(resolve_path f od := None)))
   \<and> (os_path_exists s (excel_path od fl) \<or> os_path_exists s (html_path od fl) \<longrightarrow>
      run_files c cfg od False (fl # rest) dfs fig s = (Inl FileExistsError, s))
   \<and> (os_path_isdir s od
        \<and> (os_path_exists s (excel_path od fl) \<or> os_path_exists s (html_path od fl)) \<longrightarrow>
      run_all c cfg (PyStr fl) sf od False s = (Inl FileExistsError, s))
   \<and> (1 < length (collect_filenames fn) \<and> out_ext_of sf \<in> set [''xlsx'', ''csv'']
        \<and> os_path_isdir s od \<and> os_path_exists s (resolve_path sf od) \<longrightarrow>
      run_all c cfg fn sf od False s = (Inl FileExistsError, s))
   \<and> (node_at s (excel_path od fl) = Some (File old) \<longrightarrow>
      run_file c cfg od True fl s = run_file c cfg od True fl (s(excel_path od fl := None)))
   \<and> (node_at s (html_path od fl) = Some (File old) \<and> \<not> os_path_isdir s (excel_path od fl) \<longrightarrow>
      run_file c cfg od True fl s = run_file c cfg od True fl (s(html_path od fl := None)))
   \<and> (1 < length (collect_filenames fn) \<and> out_ext_of sf \<in> set [''xlsx'', ''csv'']
        \<and> os_path_isdir s od \<and> node_at s (resolve_path sf od) = Some (File old) \<longrightarrow>
      run_all c cfg fn sf od True s = run_all c cfg fn sf od True (s(resolve_path sf od := None)))"
proof (intro conjI impI)
  show "file_check f od False s = (Inl FileExistsError, s)"
    if "os_path_exists s (resolve_path f od)"
    using that by (rule file_check_exists_False)
  show "file_check f od True s = (Inr (resolve_path f od), s(resolve_path f od := None))"
    if "node_at s (resolve_path f od) = Some (File old)"
    using that by (rule file_check_file_True)
  show "run_files c cfg od False (fl # rest) dfs fig s = (Inl FileExistsError, s)"
    if "os_path_exists s (excel_path od fl) \<or> os_path_exists s (html_path od fl)"
    using run_file_exists_False [OF that, of c cfg] by simp
  show "run_all c cfg (PyStr fl) sf od False s = (Inl FileExistsError, s)"
    if "os_path_isdir s od
        \<and> (os_path_exists s (excel_path od fl) \<or> os_path_exists s (html_path od fl))"
    using that run_all_single_exists_False by blast
  show "run_all c cfg fn sf od False s = (Inl FileExistsError, s)"
    if "1 < length (collect_filenames fn) \<and> out_ext_of sf \<in> set [''xlsx'', ''csv'']
        \<and> os_path_isdir s od \<and> os_path_exists s (resolve_path sf od)"
    using that run_all_summary_exists_False by blast
  show "run_file c cfg od True fl s = run_file c cfg od True fl (s(excel_path od fl := None))"
    if "node_at s (excel_path od fl) = Some (File old)"
    using that by (rule run_file_excel_True)
  show "run_file c cfg od True fl s = run_file c cfg od True fl (s(html_path od fl := None))"
    if "node_at s (html_path od fl) = Some (File old) \<and> \<not> os_path_isdir s (excel_path od fl)"
    using that run_file_html_True by blast
  show "run_all c cfg fn sf od True s = run_all c cfg fn sf od True (s(resolve_path sf od := None))"
    if "1 < length (collect_filenames fn) \<and> out_ext_of sf \<in> set [''xlsx'', ''csv'']
        \<and> os_path_isdir s od \<and> node_at s (resolve_path sf od) = Some (File old)"
    using that run_all_summary_True by blast
qed

theorem overwrite_policy_witness:
  "file_check ''summary.xlsx'' ''out'' False used_fs = (Inl FileExistsError, used_fs)
   \<and> file_check ''summary.xlsx'' ''out'' True used_fs
       = (Inr ''out/summary.xlsx'', used_fs(''out/summary.xlsx'' := None))
   \<and> run_files sample_core default_config ''out'' False (''a.xyz'' # [''d/b.xyz'']) [] None used_fs
       = (Inl FileExistsError, used_fs)
   \<and> run_all sample_core default_config (PyStr ''a.xyz'') ''summary.xlsx'' ''out'' False used_fs
       = (Inl FileExistsError, used_fs)
   \<and> run_all sample_core default_config (PyIter [''a.xyz'', ''d/b.xyz'']) ''summary.xlsx'' ''out''
        False used_fs
       = (Inl FileExistsError, used_fs)
   \<and> run_file sample_core default_config ''out'' True ''a.xyz'' used_fs
       = run_file sample_core default_config ''out'' True ''a.xyz''
           (used_fs(''out/a.xyz.xlsx'' := None))
   \<and> run_file sample_core default_config ''out'' True ''a.xyz'' used_fs
       = run_file sample_core default_config ''out'' True ''a.xyz''
           (used_fs(''out/a.xyz.html'' := None))
   \<and> run_all sample_core default_config (PyIter [''a.xyz'', ''d/b.xyz'']) ''summary.xlsx'' ''out''
        True used_fs
       = run_all sample_core default_config (PyIter [''a.xyz'', ''d/b.xyz'']) ''summary.xlsx'' ''out''
           True (used_fs(''out/summary.xlsx'' := None))"
proof -
  note policy = overwrite_policy [where s = used_fs and f = "''summary.xlsx''" and od = "''out''"
      and old = "Raw ''old''" and fl = "''a.xyz''" and c = sample_core and cfg = default_config
      and rest = "[''d/b.xyz'']" and dfs = "[]" and fig = None and sf = "''summary.xlsx''"
      and fn = "PyIter [''a.xyz'', ''d/b.xyz'']"]
  have sp: "resolve_path ''summary.xlsx'' ''out'' = ''out/summary.xlsx''"
    and ex: "excel_path ''out'' ''a.xyz'' = ''out/a.xyz.xlsx''"
    and ht: "html_path ''out'' ''a.xyz'' = ''out/a.xyz.html''"
    by (simp_all add: run_all_eval)
  have h1: "os_path_exists used_fs ''out/summary.xlsx''"
    and h2: "node_at used_fs ''out/summary.xlsx'' = Some (File (Raw ''old''))"
    and h3: "os_path_exists used_fs ''out/a.xyz.xlsx''"
    and h4: "os_path_isdir used_fs ''out''"
    and h5: "1 < length (collect_filenames (PyIter [''a.xyz'', ''d/b.xyz'']))"
    and h6: "out_ext_of ''summary.xlsx'' \<in> set [''xlsx'', ''csv'']"
    and h7: "node_at used_fs ''out/a.xyz.xlsx'' = Some (File (Raw ''old''))"
    and h8: "node_at used_fs ''out/a.xyz.html'' = Some (File (Raw ''old''))"
    and h9: "\<not> os_path_isdir used_fs ''out/a.xyz.xlsx''"
    by (simp_all add: run_all_eval)
  show ?thesis
    using policy h1 h2 h3 h4 h5 h6 h7 h8 h9 unfolding sp ex ht by blast
qed

lemma run_file_config:
  assumes "\<forall>f s. get_macrocycles c cfg f s = get_macrocycles c cfg' f s"
  shows "run_file c cfg od ow f = run_file c cfg' od ow f"
proof -
  have "get_macrocycles c cfg f = get_macrocycles c cfg' f"
    using assms by (intro ext) simp
  then show ?thesis
    unfolding run_file_def by simp
qed

lemma run_files_config:
  assumes "\<forall>f s. get_macrocycles c cfg f s = get_macrocycles c cfg' f s"
  shows "run_files c cfg od ow fns dfs fig s = run_files c cfg' od ow fns dfs fig s"
  by (induction fns arbitrary: dfs fig s)
    (auto simp: run_file_config [OF assms] split: prod.splits sum.splits)

lemma run_all_config:
  assumes "\<forall>f s. get_macrocycles c cfg f s = get_macrocycles c cfg' f s"
  shows "run_all c cfg fn sf od ow s = run_all c cfg' fn sf od ow s"
proof -
  have "run_files c cfg od ow fns [] None = run_files c cfg' od ow fns [] None" for fns
    by (intro ext) (rule run_files_config [OF assms])
  then show ?thesis
    unfolding run_all_def by (auto simp: Let_def)
qed

lemma run_file_frame:
  "run_file c cfg od ow f s = (Inr (fig, df), s') \<Longrightarrow> frame_of c cfg f df"
  unfolding run_file_Inr frame_of_def set_column_def by blast

lemma run_files_frames:
  "run_files c cfg od ow fns dfs fig s = (Inr (dfs', fig'), s') \<Longrightarrow>
   \<exists>new. dfs' = dfs @ new \<and> list_all2 (frame_of c cfg) fns new"
proof (induction fns arbitrary: dfs fig s)
  case Nil
  then show ?case by simp
next
  case (Cons f fns)
  from Cons.prems obtain g df s1 where
    rf: "run_file c cfg od ow f s = (Inr (g, df), s1)" and
    rest: "run_files c cfg od ow fns (dfs @ [df]) (Some g) s1 = (Inr (dfs', fig'), s')"
    by (auto split: prod.splits sum.splits)
  from Cons.IH [OF rest] obtain new where
    new: "dfs' = (dfs @ [df]) @ new" "list_all2 (frame_of c cfg) fns new"
    by blast
  have "list_all2 (frame_of c cfg) (f # fns) (df # new)"
    using run_file_frame [OF rf] new(2) by simp
  with new(1) show ?case by auto
qed

lemma frame_rows:
  assumes "list_all2 (frame_of c cfg) fns dfs" and "i < length fns" and "row \<in> set (dfs ! i)"
  shows "map_of row ''file'' = Some (CStr (fns ! i))"
proof -
  from assms(1,2) have "frame_of c cfg (fns ! i) (dfs ! i)"
    by (simp add: list_all2_conv_all_nth)
  then obtain t where "dfs ! i = map (AList.update ''file'' (CStr (fns ! i))) t"
    unfolding frame_of_def by blast
  with assms(3) show ?thesis
    by (auto simp: update_conv')
qed

text \<open>
  C2. When \<open>run_all\<close> is given a list of more than one file and returns, the summary
  path holds one table. The table is the concatenation, in the order of the list, of
  one frame for each input file, the frames that the loop collected; the frame of a file
  is a table that \<open>get_ellipticity\<close> returned for the atoms that \<open>get_macrocycles\<close>
  returned for that file, with the name of the file put in the column \<open>file\<close> of every
  row. So every row of the frame of a file has the name of that file in the column
  \<open>file\<close>.
\<close>

theorem summary_rows_carry_file:
  assumes "run_all c cfg (PyIter fns) sf od ow s = (Inr r, s')"
    and "1 < length fns"
  shows "\<exists>s1 s2 s3 dfs fig.
      prepare_output_dir od ow s = (Inr (), s1)
    \<and> file_check sf od ow s1 = (Inr (resolve_path sf od), s2)
    \<and> run_files c cfg od ow fns [] None s2 = (Inr (dfs, fig), s3)
    \<and> list_all2 (\<lambda>f df. \<exists>s0 a t pca.
          get_macrocycles c cfg f s0 = Inr a \<and> get_ellipticity c a = Inr (t, pca)
          \<and> df = map (AList.update ''file'' (CStr f)) t) fns dfs
    \<and> (out_ext_of sf = ''xlsx''
          \<and> node_at s' (resolve_path sf od) = Some (File (Xlsx (concat dfs)))
        \<or> out_ext_of sf = ''csv''
          \<and> node_at s' (resolve_path sf od) = Some (File (Csv (concat dfs))))
    \<and> (\<forall>i<length fns. \<forall>row\<in>set (dfs ! i). map_of row ''file'' = Some (CStr (fns ! i)))"
proof -
  have many: "1 < length (collect_filenames (PyIter fns))"
    using assms(2) by (simp add: collect_filenames_def)
  from run_all_many [OF assms(1) many] obtain s1 s2 s3 dfs fig where
    p: "prepare_output_dir od ow s = (Inr (), s1)" and
    fc: "file_check sf od ow s1 = (Inr (resolve_path sf od), s2)" and
    rf: "run_files c cfg od ow fns [] None s2 = (Inr (dfs, fig), s3)" and
    ext: "out_ext_of sf = ''xlsx'' \<or> out_ext_of sf = ''csv''" and
    ne: "resolve_path sf od \<noteq> []" and
    s': "s' = s3(resolve_path sf od \<mapsto> File (summary_payload (out_ext_of sf) (pd_concat dfs)))"
    by (auto simp: collect_filenames_def)
  from run_files_frames [OF rf] have fr: "list_all2 (frame_of c cfg) fns dfs"
    by simp
  then have fr': "list_all2 (\<lambda>f df. \<exists>s0 a t pca.
          get_macrocycles c cfg f s0 = Inr a \<and> get_ellipticity c a = Inr (t, pca)
          \<and> df = map (AList.update ''file'' (CStr f)) t) fns dfs"
    unfolding frame_of_def .
  have n: "out_ext_of sf = ''xlsx''
          \<and> node_at s' (resolve_path sf od) = Some (File (Xlsx (concat dfs)))
        \<or> out_ext_of sf = ''csv''
          \<and> node_at s' (resolve_path sf od) = Some (File (Csv (concat dfs)))"
    using ext ne s' by (auto simp: node_at_def summary_payload_def pd_concat_def)
  have rows: "\<forall>i<length fns. \<forall>row\<in>set (dfs ! i). map_of row ''file'' = Some (CStr (fns ! i))"
    using frame_rows [OF fr] by blast
  from p fc rf fr' n rows show ?thesis by blast
qed

theorem summary_rows_carry_file_witness:
  "node_at (snd (run_all sample_core default_config (PyIter [''a.xyz'', ''d/b.xyz''])
        ''summary.xlsx'' ''out'' False sample_fs)) ''out/summary.xlsx''
     = Some (File (Xlsx
        [[(''id'', CStr ''C 0 0 0''), (''ellipticity'', CNum 0), (''file'', CStr ''a.xyz'')],
         [(''id'', CStr ''C 1 1 1''), (''ellipticity'', CNum 0), (''file'', CStr ''d/b.xyz'')]]))
   \<and> (\<exists>s1 s2 s3 dfs fig.
      prepare_output_dir ''out'' False sample_fs = (Inr (), s1)
    \<and> file_check ''summary.xlsx'' ''out'' False s1 = (Inr (resolve_path ''summary.xlsx'' ''out''), s2)
    \<and> run_files sample_core default_config ''out'' False [''a.xyz'', ''d/b.xyz''] [] None s2
        = (Inr (dfs, fig), s3)
    \<and> list_all2 (\<lambda>f df. \<exists>s0 a t pca.
          get_macrocycles sample_core default_config f s0 = Inr a
          \<and> get_ellipticity sample_core a = Inr (t, pca)
          \<and> df = map (AList.update ''file'' (CStr f)) t) [''a.xyz'', ''d/b.xyz''] dfs
    \<and> (out_ext_of ''summary.xlsx'' = ''xlsx''
          \<and> node_at (snd (run_all sample_core default_config (PyIter [''a.xyz'', ''d/b.xyz''])
               ''summary.xlsx'' ''out'' False sample_fs)) (resolve_path ''summary.xlsx'' ''out'')
             = Some (File (Xlsx (concat dfs)))
        \<or> out_ext_of ''summary.xlsx'' = ''csv''
          \<and> node_at (snd (run_all sample_core default_config (PyIter [''a.xyz'', ''d/b.xyz''])
               ''summary.xlsx'' ''out'' False sample_fs)) (resolve_path ''summary.xlsx'' ''out'')
             = Some (File (Csv (concat dfs))))
    \<and> (\<forall>i<length [''a.xyz'', ''d/b.xyz'']. \<forall>row\<in>set (dfs ! i).
          map_of row ''file'' = Some (CStr ([''a.xyz'', ''d/b.xyz''] ! i))))"
proof -
  let ?run = "run_all sample_core default_config (PyIter [''a.xyz'', ''d/b.xyz''])
        ''summary.xlsx'' ''out'' False sample_fs"
  have "fst ?run = Inr None"
    by (simp add: run_all_eval)
  then have h1: "?run = (Inr None, snd ?run)"
    by (simp add: prod_eq_iff)
  have h2: "1 < length [''a.xyz'', ''d/b.xyz'']"
    by simp
  have "node_at (snd ?run) ''out/summary.xlsx''
     = Some (File (Xlsx
        [[(''id'', CStr ''C 0 0 0''), (''ellipticity'', CNum 0), (''file'', CStr ''a.xyz'')],
         [(''id'', CStr ''C 1 1 1''), (''ellipticity'', CNum 0), (''file'', CStr ''d/b.xyz'')]]))"
    by (simp add: run_all_eval)
  then show ?thesis
    using summary_rows_carry_file [OF h1 h2] by blast
qed

lemma is_file_upd:
  "p \<noteq> [] \<Longrightarrow> is_file (s(p \<mapsto> File c)) q \<longleftrightarrow> q = p \<or> is_file s q"
  by (auto simp: is_file_def node_at_def split: option.splits node.splits)

lemma is_file_removed:
  "q \<noteq> p \<Longrightarrow> is_file (s(p := None)) q \<longleftrightarrow> is_file s q"
  by (simp add: is_file_def node_at_def)

lemma file_check_keeps_others:
  assumes "file_check f od ow s = (Inr p, s')" and "q \<noteq> p"
  shows "is_file s' q \<longleftrightarrow> is_file s q"
  using file_check_Inr(3) [OF assms(1)] assms(2) by (simp add: is_file_removed)

lemma run_file_fills:
  assumes "run_file c cfg od ow g s = (Inr x, s')"
  shows "is_file s' (excel_path od g)" and "is_file s' (html_path od g)"
    and "is_file s q \<Longrightarrow> is_file s' q"
proof -
  obtain fig df where x: "x = (fig, df)" by (cases x)
  from assms obtain s1 s2 t doc where
    c1: "file_check (os_path_basename g @ ''.xlsx'') od ow s = (Inr (excel_path od g), s1)" and
    c2: "file_check (os_path_basename g @ ''.html'') od ow s1 = (Inr (html_path od g), s2)" and
    s': "s' = s2(excel_path od g \<mapsto> File (Xlsx t), html_path od g \<mapsto> File (Html doc))"
    unfolding x run_file_Inr by blast
  note ne = excel_path_nonempty [of od g] html_path_nonempty [of od g]
  show "is_file s' (excel_path od g)" and "is_file s' (html_path od g)"
    using s' ne by (simp_all add: is_file_upd)
  show "is_file s' q" if "is_file s q"
  proof (cases "q = excel_path od g \<or> q = html_path od g")
    case True
    then show ?thesis using s' ne by (auto simp: is_file_upd)
  next
    case False
    then have "is_file s2 q"
      using that file_check_keeps_others [OF c1, of q] file_check_keeps_others [OF c2, of q]
      by simp
    then show ?thesis using s' ne by (simp add: is_file_upd)
  qed
qed

lemma run_files_fill:
  "run_files c cfg od ow fns dfs fig s = (Inr y, s') \<Longrightarrow>
   (\<forall>f\<in>set fns. is_file s' (excel_path od f) \<and> is_file s' (html_path od f))
   \<and> (\<forall>q. is_file s q \<longrightarrow> is_file s' q)"
proof (induction fns arbitrary: dfs fig s)
  case Nil
  then show ?case by simp
next
  case (Cons f fns)
  from Cons.prems obtain g df s1 where
    rf: "run_file c cfg od ow f s = (Inr (g, df), s1)" and
    rest: "run_files c cfg od ow fns (dfs @ [df]) (Some g) s1 = (Inr y, s')"
    by (auto split: prod.splits sum.splits)
  note f1 = run_file_fills [OF rf]
  from Cons.IH [OF rest] have
    ih1: "\<forall>f\<in>set fns. is_file s' (excel_path od f) \<and> is_file s' (html_path od f)" and
    ih2: "\<forall>q. is_file s1 q \<longrightarrow> is_file s' q"
    by blast+
  show ?case
    using f1 ih1 ih2 by auto
qed

lemma write_summary_keeps_files:
  assumes "write_summary sp ext dfs fig s = (Inr r, s')" and "is_file s q"
  shows "is_file s' q"
  using assms
  by (auto simp: write_summary_def Let_def and_then_Inr write_file_Inr return_eq raise_def
      is_file_upd split: if_splits)

lemma run_all_list:
  "fns \<noteq> [] \<Longrightarrow>
   run_all c cfg (PyIter fns) sf od ow s =
     and_then (prepare_output_dir od ow) (\<lambda>_.
     and_then (check_summary fns sf od ow) (\<lambda>(summary_file', out_ext).
     and_then (run_files c cfg od ow fns [] None) (\<lambda>(dfs, fig).
     write_summary summary_file' out_ext dfs fig))) s"
  by (simp add: run_all_def collect_filenames_def)

lemma run_all_fills:
  assumes "fns \<noteq> []" and "run_all c cfg (PyIter fns) sf od ow s = (Inr r, s')"
  shows "\<forall>f\<in>set fns. is_file s' (excel_path od f) \<and> is_file s' (html_path od f)"
proof -
  from assms obtain sp ext s2 dfs fig s3 where
    rf: "run_files c cfg od ow fns [] None s2 = (Inr (dfs, fig), s3)" and
    ws: "write_summary sp ext dfs fig s3 = (Inr r, s')"
    unfolding run_all_list [OF assms(1)]
    by (auto simp: and_then_Inr)
  from run_files_fill [OF rf]
  have "\<forall>f\<in>set fns. is_file s3 (excel_path od f) \<and> is_file s3 (html_path od f)"
    by blast
  then show ?thesis
    using write_summary_keeps_files [OF ws] by blast
qed

text \<open>
  C10. The \<open>filename\<close> argument. An object that is not iterable and an iterable without
  elements both make \<open>run_all\<close> raise \<open>ValueError\<close>, and the file system is then as it
  was, so nothing has been created. A string is a batch of one file: \<open>run_all\<close> does with
  it what it does with the one-element list. A list of one or more names, however many,
  passes the check: the run is the output directory, the summary check, the loop over
  exactly these names and the summary, and when it returns, every name of the list has
  been processed, its table and its figure are on disk.
\<close>

theorem run_all_filename_argument:
  "run_all c cfg PyOther sf od ow s = (Inl ValueError, s)
   \<and> run_all c cfg (PyIter []) sf od ow s = (Inl ValueError, s)
   \<and> run_all c cfg (PyStr f) sf od ow s = run_all c cfg (PyIter [f]) sf od ow s
   \<and> (fns \<noteq> [] \<longrightarrow>
        run_all c cfg (PyIter fns) sf od ow s =
          and_then (prepare_output_dir od ow) (\<lambda>_.
          and_then (check_summary fns sf od ow) (\<lambda>(summary_file', out_ext).
          and_then (run_files c cfg od ow fns [] None) (\<lambda>(dfs, fig).
          write_summary summary_file' out_ext dfs fig))) s)
   \<and> (fns \<noteq> [] \<and> run_all c cfg (PyIter fns) sf od ow s = (Inr r, s') \<longrightarrow>
        (\<forall>f\<in>set fns. is_file s' (excel_path od f) \<and> is_file s' (html_path od f)))"
proof -
  have "run_all c cfg PyOther sf od ow s = (Inl ValueError, s)"
    and "run_all c cfg (PyIter []) sf od ow s = (Inl ValueError, s)"
    and "run_all c cfg (PyStr f) sf od ow s = run_all c cfg (PyIter [f]) sf od ow s"
    by (simp_all add: run_all_def collect_filenames_def raise_def)
  then show ?thesis
    using run_all_list [of fns c cfg sf od ow s] run_all_fills [of fns c cfg sf od ow s r s']
    by blast
qed

theorem run_all_filename_argument_witness:
  "run_all sample_core default_config PyOther ''summary.xlsx'' ''out'' False sample_fs
     = (Inl ValueError, sample_fs)
   \<and> run_all sample_core default_config (PyIter []) ''summary.xlsx'' ''out'' False sample_fs
     = (Inl ValueError, sample_fs)
   \<and> fst (run_all sample_core default_config (PyStr ''a.xyz'') ''summary.xlsx'' ''out'' False sample_fs)
     = Inr (Some ''figure of C 0 0 0'')
   \<and> fst (run_all sample_core default_config (PyIter [''a.xyz'']) ''summary.xlsx'' ''out'' False sample_fs)
     = Inr (Some ''figure of C 0 0 0'')
   \<and> fst (run_all sample_core default_config (PyIter [''a.xyz'', ''d/b.xyz'', ''a.xyz''])
        ''summary.xlsx'' ''out'' True sample_fs) = Inr None
   \<and> is_file (snd (run_all sample_core default_config (PyIter [''a.xyz'', ''d/b.xyz'', ''a.xyz''])
        ''summary.xlsx'' ''out'' True sample_fs)) (excel_path ''out'' ''d/b.xyz'')
   \<and> is_file (snd (run_all sample_core default_config (PyIter [''a.xyz'', ''d/b.xyz'', ''a.xyz''])
        ''summary.xlsx'' ''out'' True sample_fs)) (html_path ''out'' ''a.xyz'')"
proof -
  let ?run = "run_all sample_core default_config (PyIter [''a.xyz'', ''d/b.xyz'', ''a.xyz''])
        ''summary.xlsx'' ''out'' True sample_fs"
  have one: "fst (run_all sample_core default_config (PyIter [''a.xyz'']) ''summary.xlsx'' ''out''
      False sample_fs) = Inr (Some ''figure of C 0 0 0'')"
    by (simp add: run_all_eval)
  have three: "fst ?run = Inr None"
    by (simp add: run_all_eval)
  then have h: "[''a.xyz'', ''d/b.xyz'', ''a.xyz''] \<noteq> [] \<and> ?run = (Inr None, snd ?run)"
    by (simp add: prod_eq_iff)
  have "\<forall>f\<in>set [''a.xyz'', ''d/b.xyz'', ''a.xyz''].
      is_file (snd ?run) (excel_path ''out'' f) \<and> is_file (snd ?run) (html_path ''out'' f)"
    using h run_all_filename_argument
      [of sample_core default_config "''summary.xlsx''" "''out''" True sample_fs "''a.xyz''"
        "[''a.xyz'', ''d/b.xyz'', ''a.xyz'']" None "snd ?run"]
    by blast
  then have "is_file (snd ?run) (excel_path ''out'' ''d/b.xyz'')"
    and "is_file (snd ?run) (html_path ''out'' ''a.xyz'')"
    by simp_all
  with one three show ?thesis
    using run_all_filename_argument
      [of sample_core default_config "''summary.xlsx''" "''out''" False sample_fs "''a.xyz''"]
    by simp
qed

lemma file_check_False:
  assumes "file_check f od False s = (r, s')"
  shows "s' = s" and "\<And>p. r = Inr p \<Longrightarrow> \<not> os_path_exists s p"
  using assms by (auto simp: file_check_def Let_def split: if_splits)

lemma run_file_False_keeps:
  assumes "run_file c cfg od False f s = (r, s')" and "os_path_exists s p"
  shows "node_at s' p = node_at s p"
proof -
  let ?cx = "file_check (os_path_basename f @ ''.xlsx'') od False"
  let ?ch = "file_check (os_path_basename f @ ''.html'') od False"
  obtain rx sx where cx: "?cx s = (rx, sx)" by (cases "?cx s")
  note x = file_check_False [OF cx]
  show ?thesis
  proof (cases rx)
    case (Inl e)
    then have "s' = s"
      using assms(1) cx x(1) unfolding run_file_def Let_def by (simp add: and_then_def)
    then show ?thesis by simp
  next
    case (Inr ex)
    obtain rh sh where ch: "?ch s = (rh, sh)" by (cases "?ch s")
    note h = file_check_False [OF ch]
    show ?thesis
    proof (cases rh)
      case (Inl e)
      then have "s' = s"
        using assms(1) cx x(1) Inr ch h(1) unfolding run_file_def Let_def
        by (simp add: and_then_def)
      then show ?thesis by simp
    next
      case ht: (Inr ht)
      have px: "p \<noteq> ex" and ph: "p \<noteq> ht"
        using x(2) [OF Inr] h(2) [OF ht] assms(2) by auto
      have "s' = s \<or> (\<exists>a. s' = s(ex \<mapsto> a)) \<or> (\<exists>a b. s' = s(ex \<mapsto> a, ht \<mapsto> b))"
        using assms(1) cx x(1) Inr ch h(1) ht unfolding run_file_def Let_def
        by (auto simp: and_then_def reading_def lift_def write_file_def plot_results_def
            return_def split: sum.splits prod.splits if_splits)
      then show ?thesis
        using px ph by (auto simp: node_at_def)
    qed
  qed
qed

lemma run_files_False_keep:
  "run_files c cfg od False fns dfs fig s = (r, s') \<Longrightarrow> os_path_exists s p \<Longrightarrow>
   node_at s' p = node_at s p"
proof (induction fns arbitrary: dfs fig s)
  case Nil
  then show ?case by simp
next
  case (Cons f fns)
  obtain r1 s1 where rf: "run_file c cfg od False f s = (r1, s1)"
    by (cases "run_file c cfg od False f s")
  have k: "node_at s1 p = node_at s p"
    using run_file_False_keeps [OF rf Cons.prems(2)] .
  show ?case
  proof (cases r1)
    case (Inl e)
    then show ?thesis using Cons.prems(1) rf k by simp
  next
    case (Inr x)
    obtain g df where x: "x = (g, df)" by (cases x)
    have "run_files c cfg od False fns (dfs @ [df]) (Some g) s1 = (r, s')"
      using Cons.prems(1) rf Inr x by simp
    moreover have "os_path_exists s1 p"
      using Cons.prems(2) k by (simp add: os_path_exists_def)
    ultimately have "node_at s' p = node_at s1 p"
      by (rule Cons.IH)
    with k show ?thesis by simp
  qed
qed

lemma is_file_exists: "is_file s p \<Longrightarrow> os_path_exists s p"
  by (auto simp: is_file_def os_path_exists_def split: option.splits)

text \<open>
  C1. An exception raised while a file is processed is not caught: when the files before
  it have been processed and the body of the loop raises on it, \<open>run_all\<close> raises that
  exception and leaves the file system as it was at the \<open>raise\<close>. The files after it are
  not processed and no summary is written. Without \<open>overwrite\<close>, whatever was on disk
  when the body of the loop started on the failing file is still there unchanged, and
  with it the table and the figure of every file before it.
\<close>

theorem error_leaves_run_all:
  assumes "collect_filenames fn = before @ f # rest"
    and "prepare_output_dir od ow s = (Inr (), s1)"
    and "check_summary (before @ f # rest) sf od ow s1 = (Inr x, s2)"
    and "run_files c cfg od ow before [] None s2 = (Inr y, s3)"
    and "run_file c cfg od ow f s3 = (Inl e, s4)"
  shows "run_all c cfg fn sf od ow s = (Inl e, s4)
    \<and> (\<not> ow \<longrightarrow>
          (\<forall>p. os_path_exists s3 p \<longrightarrow> node_at s4 p = node_at s3 p)
        \<and> (\<forall>g\<in>set before. is_file s4 (excel_path od g) \<and> is_file s4 (html_path od g)))"
proof -
  obtain dfs fig where y: "y = (dfs, fig)" by (cases y)
  have "run_files c cfg od ow (before @ f # rest) [] None s2 = (Inl e, s4)"
    using assms(4,5) y by (simp add: run_files_append)
  then have run: "run_all c cfg fn sf od ow s = (Inl e, s4)"
    using assms(1,2,3) unfolding run_all_def Let_def
    by (cases x) (simp add: and_then_def)
  have keep: "node_at s4 p = node_at s3 p" if "\<not> ow" "os_path_exists s3 p" for p
    using run_file_False_keeps [of c cfg od f s3 "Inl e" s4 p] assms(5) that by simp
  have files: "is_file s4 (excel_path od g) \<and> is_file s4 (html_path od g)"
    if "\<not> ow" "g \<in> set before" for g
  proof -
    from run_files_fill [OF assms(4)] that(2)
    have 3: "is_file s3 (excel_path od g)" "is_file s3 (html_path od g)"
      by blast+
    then show ?thesis
      using keep [OF that(1) is_file_exists [OF 3(1)]] keep [OF that(1) is_file_exists [OF 3(2)]]
      by (simp add: is_file_def)
  qed
  from run keep files show ?thesis by blast
qed

theorem error_leaves_run_all_witness:
  "run_all sample_core default_config (PyIter [''a.xyz'', ''bad.xyz'', ''d/b.xyz''])
      ''summary.xlsx'' ''out'' False sample_fs
    = (Inl (CoreError ''no atoms''),
       sample_fs(''out'' \<mapsto> Dir,
         ''out/a.xyz.xlsx'' \<mapsto> File (Xlsx [[(''id'', CStr ''C 0 0 0''), (''ellipticity'', CNum 0)]]),
         ''out/a.xyz.html'' \<mapsto> File (Html ''<html/>'')))
   \<and> is_file (sample_fs(''out'' \<mapsto> Dir,
         ''out/a.xyz.xlsx'' \<mapsto> File (Xlsx [[(''id'', CStr ''C 0 0 0''), (''ellipticity'', CNum 0)]]),
         ''out/a.xyz.html'' \<mapsto> File (Html ''<html/>''))) (excel_path ''out'' ''a.xyz'')
   \<and> is_file (sample_fs(''out'' \<mapsto> Dir,
         ''out/a.xyz.xlsx'' \<mapsto> File (Xlsx [[(''id'', CStr ''C 0 0 0''), (''ellipticity'', CNum 0)]]),
         ''out/a.xyz.html'' \<mapsto> File (Html ''<html/>''))) (html_path ''out'' ''a.xyz'')"
proof -
  let ?s1 = "sample_fs(''out'' \<mapsto> Dir)"
  let ?s3 = "sample_fs(''out'' \<mapsto> Dir,
         ''out/a.xyz.xlsx'' \<mapsto> File (Xlsx [[(''id'', CStr ''C 0 0 0''), (''ellipticity'', CNum 0)]]),
         ''out/a.xyz.html'' \<mapsto> File (Html ''<html/>''))"
  have h1: "collect_filenames (PyIter [''a.xyz'', ''bad.xyz'', ''d/b.xyz''])
      = [''a.xyz''] @ ''bad.xyz'' # [''d/b.xyz'']"
    by (simp add: collect_filenames_def)
  have h2: "prepare_output_dir ''out'' False sample_fs = (Inr (), ?s1)"
    by (simp add: run_all_eval)
  have h3: "check_summary ([''a.xyz''] @ ''bad.xyz'' # [''d/b.xyz'']) ''summary.xlsx'' ''out'' False ?s1
      = (Inr (''out/summary.xlsx'', ''xlsx''), ?s1)"
    by (simp add: run_all_eval)
  have h4: "run_files sample_core default_config ''out'' False [''a.xyz''] [] None ?s1
      = (Inr ([[[(''id'', CStr ''C 0 0 0''), (''ellipticity'', CNum 0), (''file'', CStr ''a.xyz'')]]],
              Some ''figure of C 0 0 0''), ?s3)"
    by (simp add: run_all_eval)
  have h5: "run_file sample_core default_config ''out'' False ''bad.xyz'' ?s3
      = (Inl (CoreError ''no atoms''), ?s3)"
    by (simp add: run_all_eval)
  show ?thesis
    using error_leaves_run_all [OF h1 h2 h3 h4 h5] by simp
qed

theorem error_aborts_batch_counterexample:
  "fst (run_all sample_core default_config (PyIter [''bad.xyz'', ''a.xyz'', ''d/b.xyz''])
        ''summary.xlsx'' ''out'' False sample_fs) = Inl (CoreError ''no atoms'')
   \<and> node_at (snd (run_all sample_core default_config (PyIter [''bad.xyz'', ''a.xyz'', ''d/b.xyz''])
        ''summary.xlsx'' ''out'' False sample_fs)) ''out/a.xyz.xlsx'' = None
   \<and> node_at (snd (run_all sample_core default_config (PyIter [''bad.xyz'', ''a.xyz'', ''d/b.xyz''])
        ''summary.xlsx'' ''out'' False sample_fs)) ''out/b.xyz.xlsx'' = None
   \<and> node_at (snd (run_all sample_core default_config (PyIter [''bad.xyz'', ''a.xyz'', ''d/b.xyz''])
        ''summary.xlsx'' ''out'' False sample_fs)) ''out/summary.xlsx'' = None
   \<and> fst (run_all sample_core default_config (PyIter [''a.xyz'', ''d/b.xyz''])
        ''summary.xlsx'' ''out'' False sample_fs) = Inr None"
  by (simp add: run_all_eval)

lemma os_mkdir_Inr: "os_mkdir p s = (Inr u, s') \<Longrightarrow> os_path_isdir s' p"
  by (auto simp: os_mkdir_def os_path_isdir_def node_at_def split: if_splits)

lemma prepare_output_dir_Inr:
  assumes "prepare_output_dir od ow s = (Inr u, s1)"
  shows "os_path_isdir s1 od"
proof (cases "os_path_exists s od")
  case False
  then show ?thesis
    using assms os_mkdir_Inr [of od s u s1] by (simp add: prepare_output_dir_def)
next
  case True
  show ?thesis
  proof (cases "os_path_isdir s od")
    case True
    then show ?thesis
      using assms \<open>os_path_exists s od\<close> by (simp add: prepare_output_dir_def)
  next
    case False
    then obtain s0 where "os_mkdir od s0 = (Inr u, s1)"
      using assms True
      by (auto simp: prepare_output_dir_def and_then_Inr split: if_splits)
    then show ?thesis by (rule os_mkdir_Inr)
  qed
qed

lemma run_file_rejected:
  assumes "file_check (os_path_basename f @ ''.xlsx'') od ow s2 = (Inr ex, s3)"
    and "file_check (os_path_basename f @ ''.html'') od ow s3 = (Inr ht, s4)"
    and "get_macrocycles c cfg f s4 = Inl e"
  shows "run_file c cfg od ow f s2 = (Inl e, s4)"
  unfolding run_file_def Let_def using assms
  by (simp add: and_then_def reading_def)

text \<open>
  C4. \<open>run_all\<close> does not examine the numeric configuration. It hands it to
  \<open>get_macrocycles\<close>, so two configurations that \<open>get_macrocycles\<close> treats alike give the
  same run, whether they are structurally valid or not. \<open>get_macrocycles\<close> is first
  called for the first input file, in the state that the output directory, the summary
  check and the two \<open>_file_check\<close> calls of that file have left; when it raises there,
  \<open>run_all\<close> raises that exception and leaves that state, in which the output directory
  is a directory.
\<close>

theorem configuration_not_examined:
  "((\<forall>f s. get_macrocycles c cfg f s = get_macrocycles c cfg' f s) \<longrightarrow>
      run_all c cfg fn sf od ow s = run_all c cfg' fn sf od ow s)
   \<and> (collect_filenames fn = f # rest
        \<and> prepare_output_dir od ow s = (Inr (), s1)
        \<and> check_summary (f # rest) sf od ow s1 = (Inr x, s2)
        \<and> file_check (os_path_basename f @ ''.xlsx'') od ow s2 = (Inr ex, s3)
        \<and> file_check (os_path_basename f @ ''.html'') od ow s3 = (Inr ht, s4)
        \<and> get_macrocycles c cfg f s4 = Inl e \<longrightarrow>
      run_all c cfg fn sf od ow s = (Inl e, s4) \<and> os_path_isdir s4 od)"
proof -
  have a: "run_all c cfg fn sf od ow s = run_all c cfg' fn sf od ow s"
    if "\<forall>f s. get_macrocycles c cfg f s = get_macrocycles c cfg' f s"
    using that by (rule run_all_config)
  have b: "run_all c cfg fn sf od ow s = (Inl e, s4) \<and> os_path_isdir s4 od"
    if fn: "collect_filenames fn = f # rest"
      and p: "prepare_output_dir od ow s = (Inr (), s1)"
      and cs: "check_summary (f # rest) sf od ow s1 = (Inr x, s2)"
      and c1: "file_check (os_path_basename f @ ''.xlsx'') od ow s2 = (Inr ex, s3)"
      and c2: "file_check (os_path_basename f @ ''.html'') od ow s3 = (Inr ht, s4)"
      and gm: "get_macrocycles c cfg f s4 = Inl e"
  proof -
    have "run_file c cfg od ow f s2 = (Inl e, s4)"
      using c1 c2 gm by (rule run_file_rejected)
    then have "run_files c cfg od ow (f # rest) [] None s2 = (Inl e, s4)"
      by simp
    then have run: "run_all c cfg fn sf od ow s = (Inl e, s4)"
      using fn p cs unfolding run_all_def Let_def
      by (cases x) (simp add: and_then_def)
    have "os_path_isdir s1 od"
      using p by (rule prepare_output_dir_Inr)
    then have "os_path_isdir s2 od"
      using dirs_unchangedD [OF dirs_check_summary cs] by simp
    then have "os_path_isdir s3 od"
      using dirs_unchangedD [OF dirs_file_check c1] by simp
    then have "os_path_isdir s4 od"
      using dirs_unchangedD [OF dirs_file_check c2] by simp
    with run show ?thesis by simp
  qed
  from a b show ?thesis by blast
qed

theorem configuration_not_examined_witness:
  "run_all lenient_core bad_config (PyStr ''a.xyz'') ''summary.xlsx'' ''out'' False sample_fs
     = run_all lenient_core default_config (PyStr ''a.xyz'') ''summary.xlsx'' ''out'' False sample_fs
   \<and> run_all sample_core bad_config (PyStr ''a.xyz'') ''summary.xlsx'' ''out'' False sample_fs
     = (Inl ValueError, sample_fs(''out'' \<mapsto> Dir))
   \<and> os_path_isdir (sample_fs(''out'' \<mapsto> Dir)) ''out''"
proof -
  let ?s1 = "sample_fs(''out'' \<mapsto> Dir)"
  have h1: "\<forall>f s. get_macrocycles lenient_core bad_config f s
      = get_macrocycles lenient_core default_config f s"
    by (simp add: lenient_core_def)
  have h2: "collect_filenames (PyStr ''a.xyz'') = ''a.xyz'' # []
      \<and> prepare_output_dir ''out'' False sample_fs = (Inr (), ?s1)
      \<and> check_summary (''a.xyz'' # []) ''summary.xlsx'' ''out'' False ?s1
          = (Inr (''summary.xlsx'', []), ?s1)
      \<and> file_check (os_path_basename ''a.xyz'' @ ''.xlsx'') ''out'' False ?s1
          = (Inr ''out/a.xyz.xlsx'', ?s1)
      \<and> file_check (os_path_basename ''a.xyz'' @ ''.html'') ''out'' False ?s1
          = (Inr ''out/a.xyz.html'', ?s1)
      \<and> get_macrocycles sample_core bad_config ''a.xyz'' ?s1 = Inl ValueError"
    by (simp add: run_all_eval)
  show ?thesis
    using h1 h2
      configuration_not_examined [of lenient_core bad_config default_config "PyStr ''a.xyz''"
        "''summary.xlsx''" "''out''" False sample_fs]
      configuration_not_examined [of sample_core bad_config bad_config "PyStr ''a.xyz''"
        "''summary.xlsx''" "''out''" False sample_fs "''a.xyz''" "[]" ?s1 "(''summary.xlsx'', [])"
        ?s1 "''out/a.xyz.xlsx''" ?s1 "''out/a.xyz.html''" ?s1 ValueError]
    by blast
qed

theorem invalid_configuration_counterexample:
  "max_num_carbons bad_config < min_num_carbons bad_config
   \<and> bond_dist bad_config < 0
   \<and> node_at sample_fs ''out'' = None
   \<and> run_all sample_core bad_config (PyStr ''a.xyz'') ''summary.xlsx'' ''out'' False sample_fs
       = (Inl ValueError, sample_fs(''out'' \<mapsto> Dir))
   \<and> node_at used_fs ''out/a.xyz.xlsx'' = Some (File (Raw ''old''))
   \<and> fst (run_all sample_core bad_config (PyStr ''a.xyz'') ''summary.xlsx'' ''out'' True used_fs)
       = Inl ValueError
   \<and> node_at (snd (run_all sample_core bad_config (PyStr ''a.xyz'') ''summary.xlsx'' ''out'' True
        used_fs)) ''out/a.xyz.xlsx'' = None
   \<and> fst (run_all lenient_core bad_config (PyStr ''a.xyz'') ''summary.xlsx'' ''out'' False sample_fs)
       = Inr (Some ''figure of C 0 0 0'')"
  by (simp add: run_all_eval)

end
